theory Spec2Isabelle
  imports Main
begin

section \<open>Python values the script works with\<close>

text \<open>
  The script \<^verbatim>\<open>ytsummarize.py\<close> is glue code around four services. Strings are
  \<^typ>\<open>string\<close> (lists of 8-bit characters, read as the bytes of the text), Python's
  \<^verbatim>\<open>None\<close> is \<^const>\<open>None\<close>, and a raised exception is the left summand of a sum.

  Only exceptions derived from \<^verbatim>\<open>Exception\<close> are modelled, so both
  \<^verbatim>\<open>except Exception\<close> clauses of the script catch every exception of the model.
  An exception carries its class and the text that \<^verbatim>\<open>str(e)\<close> yields.
\<close>

datatype exc_class =
    TranscriptsDisabled
  | ValueError
  | TypeError
  | KeyError
  | FileNotFoundError
  | OtherException

datatype exn = Exn exc_class string

fun exc_class_of :: "exn \<Rightarrow> exc_class" where
  "exc_class_of (Exn c m) = c"

fun str_exn :: "exn \<Rightarrow> string" where
  "str_exn (Exn c m) = m"

text \<open>\<^verbatim>\<open>str(b)\<close> for a boolean, as an f-string formats it.\<close>

definition str_bool :: "bool \<Rightarrow> string" where
  "str_bool b = (if b then ''True'' else ''False'')"

text \<open>\<^verbatim>\<open>sep.join(xs)\<close>\<close>

fun py_join :: "string \<Rightarrow> string list \<Rightarrow> string" where
  "py_join sep [] = []"
| "py_join sep [x] = x"
| "py_join sep (x # y # ys) = x @ sep @ py_join sep (y # ys)"

text \<open>
  \<^verbatim>\<open>s.partition(c)\<close> for a one-character separator: the text before the first
  occurrence, whether the separator occurs, and the text after it.
\<close>

definition py_partition :: "char \<Rightarrow> string \<Rightarrow> string \<times> bool \<times> string" where
  "py_partition c s =
     (let front = takeWhile (\<lambda>x. x \<noteq> c) s
      in (front, c \<in> set s, drop (Suc (length front)) s))"

text \<open>
  \<^verbatim>\<open>s.rpartition(c)[2]\<close>: the text after the last occurrence of the separator, the
  whole of \<^verbatim>\<open>s\<close> when there is none.
\<close>

definition py_rpartition_tail :: "char \<Rightarrow> string \<Rightarrow> string" where
  "py_rpartition_tail c s = rev (takeWhile (\<lambda>x. x \<noteq> c) (rev s))"

text \<open>\<^verbatim>\<open>s.split(c)\<close> for a one-character separator.\<close>

fun py_split :: "char \<Rightarrow> string \<Rightarrow> string list" where
  "py_split c [] = [[]]"
| "py_split c (x # xs) =
     (if x = c then [] # py_split c xs
      else (case py_split c xs of
              [] \<Rightarrow> [[x]]
            | w # ws \<Rightarrow> (x # w) # ws))"

text \<open>\<^verbatim>\<open>s.startswith(p)\<close>, returning the rest of the text behind the prefix.\<close>

fun strip_prefix :: "string \<Rightarrow> string \<Rightarrow> string option" where
  "strip_prefix [] s = Some s"
| "strip_prefix (p # ps) [] = None"
| "strip_prefix (p # ps) (c # cs) = (if p = c then strip_prefix ps cs else None)"

text \<open>
  \<^verbatim>\<open>str.lower\<close>, \<^verbatim>\<open>str.isascii\<close> and \<^verbatim>\<open>str.isalpha\<close> on ASCII characters.
  Characters outside ASCII are left as they are by \<open>py_lower\<close>.
\<close>

definition is_ascii :: "char \<Rightarrow> bool" where
  "is_ascii c = ((of_char c :: nat) < 128)"

definition is_upper :: "char \<Rightarrow> bool" where
  "is_upper c = (c \<in> set ''ABCDEFGHIJKLMNOPQRSTUVWXYZ'')"

definition is_lower :: "char \<Rightarrow> bool" where
  "is_lower c = (c \<in> set ''abcdefghijklmnopqrstuvwxyz'')"

definition ascii_isalpha :: "char \<Rightarrow> bool" where
  "ascii_isalpha c = (is_upper c \<or> is_lower c)"

definition lower_char :: "char \<Rightarrow> char" where
  "lower_char c = (if is_upper c then char_of (of_char c + (32 :: nat)) else c)"

definition py_lower :: "string \<Rightarrow> string" where
  "py_lower s = map lower_char s"

section \<open>The standard library's URL parser\<close>

text \<open>
  \<^verbatim>\<open>extract_video_id\<close> calls \<^verbatim>\<open>urllib.parse.urlparse\<close> and
  \<^verbatim>\<open>urllib.parse.parse_qs\<close>. Their control flow is transcribed from CPython 3.11
  (\<^verbatim>\<open>Lib/urllib/parse.py\<close>). Three leaves need Unicode or IP-address tables and are
  taken as parameters in the record \<open>pylib\<close>:
  \<^item> \<open>check_bracketed_host\<close>: \<^verbatim>\<open>_check_bracketed_host\<close>, the exception it raises, if any;
  \<^item> \<open>checknetloc_nfkc\<close>: the NFKC part of \<^verbatim>\<open>_checknetloc\<close>, reached only for a
    network location with a character outside ASCII;
  \<^item> \<open>unquote_escapes\<close>: \<^verbatim>\<open>unquote\<close> on a text that contains a percent sign.
\<close>

record pylib =
  check_bracketed_host :: "string \<Rightarrow> exn option"
  checknetloc_nfkc :: "string \<Rightarrow> exn option"
  unquote_escapes :: "string \<Rightarrow> string"

record parse_result =
  scheme :: string
  netloc :: string
  path :: string
  params :: string
  query :: string
  fragment :: string

definition scheme_chars :: string where
  "scheme_chars =
     ''abcdefghijklmnopqrstuvwxyzABCDEFGHIJKLMNOPQRSTUVWXYZ0123456789+-.''"

definition WHATWG_C0_CONTROL_OR_SPACE :: string where
  "WHATWG_C0_CONTROL_OR_SPACE =
     [CHR 0x00, CHR 0x01, CHR 0x02, CHR 0x03, CHR 0x04, CHR 0x05, CHR 0x06, CHR 0x07,
      CHR 0x08, CHR 0x09, CHR 0x0A, CHR 0x0B, CHR 0x0C, CHR 0x0D, CHR 0x0E, CHR 0x0F,
      CHR 0x10, CHR 0x11, CHR 0x12, CHR 0x13, CHR 0x14, CHR 0x15, CHR 0x16, CHR 0x17,
      CHR 0x18, CHR 0x19, CHR 0x1A, CHR 0x1B, CHR 0x1C, CHR 0x1D, CHR 0x1E, CHR 0x1F,
      CHR '' '']"

definition UNSAFE_URL_BYTES_TO_REMOVE :: string where
  "UNSAFE_URL_BYTES_TO_REMOVE = [CHR 0x09, CHR 0x0D, CHR 0x0A]"

definition uses_params :: "string list" where
  "uses_params =
     ['''', ''ftp'', ''hdl'', ''prospero'', ''http'', ''imap'', ''https'', ''shttp'',
      ''rtsp'', ''rtsps'', ''rtspu'', ''sip'', ''sips'', ''mms'', ''sftp'', ''tel'']"

text \<open>
  \<^verbatim>\<open>_splitnetloc(url, 2)\<close>: the network location runs from behind the two slashes to
  the first of \<^verbatim>\<open>/ ? #\<close>.
\<close>

definition splitnetloc :: "string \<Rightarrow> string \<times> string" where
  "splitnetloc url =
     (let body = drop 2 url;
          domain = takeWhile (\<lambda>c. c \<notin> set ''/?#'') body
      in (domain, drop (length domain) body))"

text \<open>\<^verbatim>\<open>_checknetloc\<close>\<close>

definition checknetloc :: "pylib \<Rightarrow> string \<Rightarrow> exn option" where
  "checknetloc L nl =
     (if nl = [] \<or> list_all is_ascii nl then None else checknetloc_nfkc L nl)"

text \<open>
  The scheme of \<^verbatim>\<open>urlsplit\<close>: the text before the first colon, when that text is not
  empty, starts with an ASCII letter and consists of scheme characters.
\<close>

definition split_scheme :: "string \<Rightarrow> string \<times> string" where
  "split_scheme url =
     (let pre = takeWhile (\<lambda>c. c \<noteq> CHR '':'') url
      in if CHR '':'' \<in> set url \<and> pre \<noteq> [] \<and> is_ascii (hd pre) \<and> ascii_isalpha (hd pre)
            \<and> list_all (\<lambda>c. c \<in> set scheme_chars) pre
         then (py_lower pre, drop (Suc (length pre)) url)
         else ([], url))"

text \<open>
  The first steps of \<^verbatim>\<open>urlsplit\<close>: leading C0 control characters and spaces are
  stripped, then tabs, carriage returns and line feeds are removed everywhere.
\<close>

definition url_cleaned :: "string \<Rightarrow> string" where
  "url_cleaned url0 =
     filter (\<lambda>c. c \<notin> set UNSAFE_URL_BYTES_TO_REMOVE)
       (dropWhile (\<lambda>c. c \<in> set WHATWG_C0_CONTROL_OR_SPACE) url0)"

text \<open>
  \<^verbatim>\<open>urlsplit\<close>. The result holds scheme, network location, path, query and fragment;
  \<open>params\<close> is filled in by \<open>urlparse\<close>.
\<close>

definition urlsplit :: "pylib \<Rightarrow> string \<Rightarrow> exn + parse_result" where
  "urlsplit L url0 =
     (let url2 = url_cleaned url0;
          (sch, url3) = split_scheme url2;
          has_netloc = (take 2 url3 = ''//'');
          (nl, url4) = (if has_netloc then splitnetloc url3 else ([], url3));
          open_br = (CHR ''['' \<in> set nl);
          close_br = (CHR '']'' \<in> set nl)
      in if has_netloc \<and> ((open_br \<and> \<not> close_br) \<or> (close_br \<and> \<not> open_br))
         then Inl (Exn ValueError ''Invalid IPv6 URL'')
         else
           (case (if has_netloc \<and> open_br \<and> close_br
                  then check_bracketed_host L
                         (fst (py_partition CHR '']''
                            (snd (snd (py_partition CHR ''['' nl)))))
                  else None) of
              Some e \<Rightarrow> Inl e
            | None \<Rightarrow>
               (let (url5, frag) =
                      (if CHR ''#'' \<in> set url4
                       then (fst (py_partition CHR ''#'' url4),
                             snd (snd (py_partition CHR ''#'' url4)))
                       else (url4, []));
                    (url6, qry) =
                      (if CHR ''?'' \<in> set url5
                       then (fst (py_partition CHR ''?'' url5),
                             snd (snd (py_partition CHR ''?'' url5)))
                       else (url5, []))
                in (case checknetloc L nl of
                      Some e \<Rightarrow> Inl e
                    | None \<Rightarrow>
                        Inr \<lparr>scheme = sch, netloc = nl, path = url6, params = [],
                             query = qry, fragment = frag\<rparr>))))"

text \<open>
  \<^verbatim>\<open>_splitparams\<close>: the parameters start at the first semicolon behind the last
  slash of the path.
\<close>

definition splitparams :: "string \<Rightarrow> string \<times> string" where
  "splitparams url =
     (if CHR ''/'' \<in> set url then
        (let tail = py_rpartition_tail CHR ''/'' url;
             front = take (length url - length tail) url
         in if CHR '';'' \<in> set tail
            then (front @ fst (py_partition CHR '';'' tail),
                  snd (snd (py_partition CHR '';'' tail)))
            else (url, []))
      else (fst (py_partition CHR '';'' url), snd (snd (py_partition CHR '';'' url))))"

definition urlparse :: "pylib \<Rightarrow> string \<Rightarrow> exn + parse_result" where
  "urlparse L url =
     (case urlsplit L url of
        Inl e \<Rightarrow> Inl e
      | Inr r \<Rightarrow>
          (if scheme r \<in> set uses_params \<and> CHR '';'' \<in> set (path r)
           then Inr (r\<lparr>path := fst (splitparams (path r)),
                       params := snd (splitparams (path r))\<rparr>)
           else Inr r))"

text \<open>
  The \<^verbatim>\<open>hostname\<close> property of a parse result: the host part of the network
  location in lower case, \<^verbatim>\<open>None\<close> when it is empty.
\<close>

definition hostname :: "parse_result \<Rightarrow> string option" where
  "hostname r =
     (let hostinfo = py_rpartition_tail CHR ''@'' (netloc r);
          (x, have_open_br, bracketed) = py_partition CHR ''['' hostinfo;
          host = (if have_open_br then fst (py_partition CHR '']'' bracketed)
                  else fst (py_partition CHR '':'' hostinfo))
      in if host = [] then None
         else (let (h, percent, zone) = py_partition CHR ''%'' host
               in Some (py_lower h @ (if percent then ''%'' else []) @ zone)))"

text \<open>\<^verbatim>\<open>unquote_plus\<close>: plus signs become spaces, then \<^verbatim>\<open>unquote\<close>.\<close>

definition unquote :: "pylib \<Rightarrow> string \<Rightarrow> string" where
  "unquote L s = (if CHR ''%'' \<notin> set s then s else unquote_escapes L s)"

definition unquote_plus :: "pylib \<Rightarrow> string \<Rightarrow> string" where
  "unquote_plus L s = unquote L (map (\<lambda>c. if c = CHR ''+'' then CHR '' '' else c) s)"

text \<open>
  \<^verbatim>\<open>parse_qsl\<close> with its default arguments: fields are separated by \<^verbatim>\<open>&\<close>, an
  empty field and a field with an empty value are skipped.
\<close>

definition parse_qsl :: "pylib \<Rightarrow> string \<Rightarrow> (string \<times> string) list" where
  "parse_qsl L qs =
     (if qs = [] then []
      else concat (map (\<lambda>name_value.
             if name_value \<noteq> [] then
               (let (name, has_eq, val) = py_partition CHR ''='' name_value
                in if val \<noteq> [] then [(unquote_plus L name, unquote_plus L val)] else [])
             else [])
           (py_split CHR ''&'' qs)))"

text \<open>
  \<^verbatim>\<open>parse_qs\<close>: a dictionary from each name to the list of its values, in order of
  appearance.
\<close>

fun collect_pairs ::
  "(string \<times> string) list \<Rightarrow> (string \<rightharpoonup> string list) \<Rightarrow> (string \<rightharpoonup> string list)" where
  "collect_pairs [] parsed_result = parsed_result"
| "collect_pairs ((name, val) # pairs) parsed_result =
     collect_pairs pairs
       (case parsed_result name of
          Some vs \<Rightarrow> parsed_result(name \<mapsto> vs @ [val])
        | None \<Rightarrow> parsed_result(name \<mapsto> [val]))"

definition parse_qs :: "pylib \<Rightarrow> string \<Rightarrow> (string \<rightharpoonup> string list)" where
  "parse_qs L qs = collect_pairs (parse_qsl L qs) Map.empty"

section \<open>The short-link pattern\<close>

text \<open>
  \<^verbatim>\<open>re.match(r"(?:https?://)?(?:www\.)?youtu\.be/([^?&]+)", url)\<close>.
  A matcher maps the text to the remainders it can leave behind, in the order in which
  the backtracking engine tries them; \<^verbatim>\<open>re.match\<close> anchors at the start and takes the
  first alternative that lets the whole pattern match.
\<close>

type_synonym matcher = "string \<Rightarrow> string list"

definition rx_lit :: "string \<Rightarrow> matcher" where
  "rx_lit p s = (case strip_prefix p s of Some r \<Rightarrow> [r] | None \<Rightarrow> [])"

definition rx_seq :: "matcher \<Rightarrow> matcher \<Rightarrow> matcher" where
  "rx_seq m1 m2 s = concat (map m2 (m1 s))"

text \<open>A greedy optional group: first with the group, then without it.\<close>

definition rx_opt :: "matcher \<Rightarrow> matcher" where
  "rx_opt m s = m s @ [s]"

definition rx_short_link_prefix :: matcher where
  "rx_short_link_prefix =
     rx_seq (rx_opt (rx_seq (rx_lit ''http'') (rx_seq (rx_opt (rx_lit ''s'')) (rx_lit ''://''))))
       (rx_seq (rx_opt (rx_lit ''www.''))
          (rx_lit ''youtu.be/''))"

text \<open>
  The group \<^verbatim>\<open>([^?&]+)\<close> ends the pattern: it takes the longest run of characters
  other than \<^verbatim>\<open>?\<close> and \<^verbatim>\<open>&\<close>, and needs at least one.
\<close>

definition rx_group1 :: "string \<Rightarrow> string option" where
  "rx_group1 s =
     (let g = takeWhile (\<lambda>c. c \<notin> set ''?&'') s in if g = [] then None else Some g)"

definition re_match_short_link :: "string \<Rightarrow> string option" where
  "re_match_short_link url =
     (case List.map_filter rx_group1 (rx_short_link_prefix url) of
        [] \<Rightarrow> None
      | g # gs \<Rightarrow> Some g)"

section \<open>extract_video_id\<close>

text \<open>
  \<^verbatim>\<open>query_params.get("v", [None])[0]\<close>: the first value of \<^verbatim>\<open>v\<close>, \<^verbatim>\<open>None\<close>
  when the parameter is missing. The lists that \<open>parse_qs\<close> builds are never empty; the
  empty case is the \<^verbatim>\<open>IndexError\<close> Python would raise.
\<close>

definition first_v :: "(string \<rightharpoonup> string list) \<Rightarrow> exn + string option" where
  "first_v query_params =
     (case query_params ''v'' of
        None \<Rightarrow> Inr None
      | Some [] \<Rightarrow> Inl (Exn OtherException ''list index out of range'')
      | Some (x # xs) \<Rightarrow> Inr (Some x))"

definition extract_video_id :: "pylib \<Rightarrow> string \<Rightarrow> exn + string option" where
  "extract_video_id L url =
     (case urlparse L url of
        Inl e \<Rightarrow> Inl e
      | Inr parsed_url \<Rightarrow>
          (if hostname parsed_url \<in> {Some ''www.youtube.com'', Some ''youtube.com''}
           then first_v (parse_qs L (query parsed_url))
           else Inr (re_match_short_link url)))"

section \<open>Shapes of URL texts\<close>

text \<open>
  Character classes and query fields in which the theorems on \<open>extract_video_id\<close>
  describe URL texts. A delimiter is a character that ends or structures the network
  location; an unsafe character is one that \<^verbatim>\<open>urlsplit\<close> removes; a host character is
  a letter or a dot; a port character is a colon or a digit.
\<close>

definition is_delim :: "char \<Rightarrow> bool" where
  "is_delim c = (c \<in> set ''/?#@[]:%'')"

definition is_unsafe :: "char \<Rightarrow> bool" where
  "is_unsafe c = (c \<in> set UNSAFE_URL_BYTES_TO_REMOVE)"

definition host_char :: "char \<Rightarrow> bool" where
  "host_char c = (is_upper c \<or> is_lower c \<or> c = CHR ''.'')"

definition port_char :: "char \<Rightarrow> bool" where
  "port_char c = (c \<in> set '':0123456789'')"

text \<open>
  A query is a sequence of fields separated by \<^verbatim>\<open>&\<close>; the name of a field is its text
  before the first \<^verbatim>\<open>=\<close>, its value the text behind it. A field is another field, one
  that contributes no value of \<^verbatim>\<open>v\<close>, when its value is empty or when its name has no
  percent escape and is not \<^verbatim>\<open>v\<close>.
\<close>

definition query_field_name :: "string \<Rightarrow> string" where
  "query_field_name f = takeWhile (\<lambda>c. c \<noteq> CHR ''='') f"

definition query_field_value :: "string \<Rightarrow> string" where
  "query_field_value f = drop (Suc (length (query_field_name f))) f"

definition other_field :: "string \<Rightarrow> bool" where
  "other_field f =
     (CHR ''&'' \<notin> set f \<and>
      (query_field_value f = [] \<or>
       (CHR ''%'' \<notin> set (query_field_name f) \<and> query_field_name f \<noteq> ''v'')))"

section \<open>The services and the state of a run\<close>

text \<open>
  A caption track as the script uses it: its language code, its generated flag, and what
  \<^verbatim>\<open>fetch()\<close> does for it, either raising or returning the caption entries. Of an
  entry the script reads the \<^verbatim>\<open>"text"\<close> key only; the timing keys are left out.
\<close>

record caption_entry =
  entry_text :: string

record track =
  language_code :: string
  is_generated :: bool
  fetch :: "exn + caption_entry list"

text \<open>The options dictionary handed to \<^verbatim>\<open>yt_dlp.YoutubeDL\<close>.\<close>

record ydl_opts =
  format :: string
  outtmpl :: string
  quiet :: bool

text \<open>
  Everything outside the script is a field of \<open>world\<close>:
  \<^item> \<open>lib\<close>: the standard-library leaves of the URL parser;
  \<^item> \<open>stdin_url\<close>, \<open>stdin_language\<close>: what the two \<^verbatim>\<open>input(...).strip()\<close> calls give;
  \<^item> \<open>gettempdir\<close>: \<^verbatim>\<open>tempfile.gettempdir()\<close>;
  \<^item> \<open>list_transcripts\<close>: \<^verbatim>\<open>YouTubeTranscriptApi.list_transcripts(video_id)\<close>;
  \<^item> \<open>ydl_download\<close>: \<^verbatim>\<open>ydl.download([video_url])\<close> under the given options, on the
    files present: the exception raised, if any, and the files present afterwards;
  \<^item> \<open>whisper_create\<close>: \<^verbatim>\<open>openai.Audio.transcriptions.create\<close> with model, file
    contents and response format, returning a dictionary;
  \<^item> \<open>generate_content\<close>: \<^verbatim>\<open>GenerativeModel(name).generate_content(prompt).text\<close>.
\<close>

record world =
  lib :: pylib
  stdin_url :: string
  stdin_language :: string
  gettempdir :: string
  list_transcripts :: "string \<Rightarrow> exn + track list"
  ydl_download ::
    "ydl_opts \<Rightarrow> string list \<Rightarrow> (string \<rightharpoonup> string) \<Rightarrow> exn option \<times> (string \<rightharpoonup> string)"
  whisper_create :: "string \<Rightarrow> string \<Rightarrow> string \<Rightarrow> exn + (string \<rightharpoonup> string)"
  generate_content :: "string \<Rightarrow> string \<Rightarrow> exn + string"

text \<open>
  What a run leaves behind, in order: lines printed, prompts shown, and calls to the
  services. A call is recorded when it is made, whether it then succeeds or raises.
\<close>

datatype event =
    Print string
  | Prompt string
  | CallListTranscripts string
  | CallFetch string
  | CallDownload string
  | CallWhisper string
  | CallGemini string

record state =
  files :: "string \<rightharpoonup> string"
  trace :: "event list"

definition emit :: "event \<Rightarrow> state \<Rightarrow> state" where
  "emit e s = s\<lparr>trace := trace s @ [e]\<rparr>"

definition is_call :: "event \<Rightarrow> bool" where
  "is_call e = (case e of Print m \<Rightarrow> False | Prompt m \<Rightarrow> False | _ \<Rightarrow> True)"

text \<open>The calls to the services made so far, in order.\<close>

definition calls_of :: "state \<Rightarrow> event list" where
  "calls_of s = filter is_call (trace s)"

section \<open>download_audio and transcribe_audio\<close>

text \<open>\<^verbatim>\<open>os.path.join(a, b)\<close> of \<^verbatim>\<open>posixpath\<close>.\<close>

definition os_path_join :: "string \<Rightarrow> string \<Rightarrow> string" where
  "os_path_join a b =
     (if strip_prefix ''/'' b \<noteq> None then b
      else if a = [] \<or> last a = CHR ''/'' then a @ b
      else a @ ''/'' @ b)"

definition download_audio :: "world \<Rightarrow> string \<Rightarrow> state \<Rightarrow> string option \<times> state" where
  "download_audio W video_url s =
     (let temp_dir = gettempdir W;
          output_path = os_path_join temp_dir ''youtube_audio.mp3'';
          s1 = emit (Print (''Downloading audio to: '' @ output_path)) s;
          opts = \<lparr>format = ''bestaudio/best'', outtmpl = output_path, quiet = True\<rparr>;
          s2 = emit (CallDownload video_url) s1;
          (raised, files') = ydl_download W opts [video_url] (files s2);
          s3 = s2\<lparr>files := files'\<rparr>
      in case raised of
           Some e \<Rightarrow> (None, emit (Print (''yt-dlp download failed: '' @ str_exn e)) s3)
         | None \<Rightarrow>
             (if files' output_path = None
              then (None, emit (Print (''Error: Audio file not found at '' @ output_path)) s3)
              else (Some output_path, s3)))"

text \<open>
  \<^verbatim>\<open>open(audio_path, "rb")\<close> raises \<^verbatim>\<open>TypeError\<close> for \<^verbatim>\<open>None\<close> and
  \<^verbatim>\<open>FileNotFoundError\<close> for a missing file; \<^verbatim>\<open>result["text"]\<close> raises
  \<^verbatim>\<open>KeyError\<close> when the key is missing.
\<close>

definition transcribe_audio :: "world \<Rightarrow> string option \<Rightarrow> state \<Rightarrow> (exn + string) \<times> state" where
  "transcribe_audio W audio_path s =
     (case audio_path of
        None \<Rightarrow>
          (Inl (Exn TypeError ''expected str, bytes or os.PathLike object, not NoneType''), s)
      | Some p \<Rightarrow>
          (case files s p of
             None \<Rightarrow>
               (Inl (Exn FileNotFoundError
                      (''[Errno 2] No such file or directory: '' @ [CHR 0x27] @ p @ [CHR 0x27])), s)
           | Some audio_file \<Rightarrow>
               (let s1 = emit (CallWhisper p) s
                in case whisper_create W ''whisper-1'' audio_file ''text'' of
                     Inl e \<Rightarrow> (Inl e, s1)
                   | Inr result \<Rightarrow>
                       (case result ''text'' of
                          None \<Rightarrow> (Inl (Exn KeyError ([CHR 0x27] @ ''text'' @ [CHR 0x27])), s1)
                        | Some t \<Rightarrow> (Inr t, s1)))))"

section \<open>fetch_transcript\<close>

text \<open>
  \<^verbatim>\<open>next((t for t in transcripts if not t.is_generated),
       next((t for t in transcripts if t.is_generated), None))\<close>
\<close>

definition best_transcript :: "track list \<Rightarrow> track option" where
  "best_transcript transcripts =
     (case find (\<lambda>t. \<not> is_generated t) transcripts of
        Some t \<Rightarrow> Some t
      | None \<Rightarrow> find (\<lambda>t. is_generated t) transcripts)"

definition debug_line :: "track \<Rightarrow> string" where
  "debug_line t =
     '' - '' @ language_code t @ '' (Generated: '' @ str_bool (is_generated t) @ '')''"

text \<open>
  \<^verbatim>\<open>raise TranscriptsDisabled\<close> names the class without arguments, so Python calls its
  constructor with none. The library's \<^verbatim>\<open>TranscriptsDisabled\<close> inherits the constructor
  of \<^verbatim>\<open>CouldNotRetrieveTranscript\<close>, which requires \<^verbatim>\<open>video_id\<close>: what is raised
  is the \<^verbatim>\<open>TypeError\<close> of the failed call, with the text of CPython 3.10 and later.
\<close>

definition bare_TranscriptsDisabled :: exn where
  "bare_TranscriptsDisabled =
     Exn TypeError
       (''CouldNotRetrieveTranscript.__init__() missing 1 required positional argument: ''
        @ [CHR 0x27] @ ''video_id'' @ [CHR 0x27])"

text \<open>
  The body of the \<^verbatim>\<open>try\<close> block: list the tracks, print them, pick the best one, fetch
  it and join its entries. With no track at all the statement
  \<^verbatim>\<open>raise TranscriptsDisabled\<close> is run.
\<close>

definition fetch_transcript_try :: "world \<Rightarrow> string \<Rightarrow> state \<Rightarrow> (exn + string) \<times> state" where
  "fetch_transcript_try W video_id s =
     (let s1 = emit (CallListTranscripts video_id) s
      in case list_transcripts W video_id of
           Inl e \<Rightarrow> (Inl e, s1)
         | Inr transcripts \<Rightarrow>
             (let s2 = emit (Print (''DEBUG: Available transcripts for '' @ video_id @ '':'')) s1;
                  s3 = foldl (\<lambda>st t. emit (Print (debug_line t)) st) s2 transcripts
              in case best_transcript transcripts of
                   None \<Rightarrow> (Inl bare_TranscriptsDisabled, s3)
                 | Some best \<Rightarrow>
                     (let s4 = emit (CallFetch (language_code best)) s3
                      in case fetch best of
                           Inl e \<Rightarrow> (Inl e, s4)
                         | Inr transcript \<Rightarrow>
                             (Inr (py_join '' '' (map entry_text transcript)), s4))))"

text \<open>The handler \<^verbatim>\<open>except TranscriptsDisabled\<close>. Nothing in it is caught.\<close>

definition fetch_transcript_fallback ::
  "world \<Rightarrow> string \<Rightarrow> state \<Rightarrow> (exn + string option \<times> string option) \<times> state" where
  "fetch_transcript_fallback W video_url s =
     (let s1 = emit (Print ''Captions are disabled. Using Whisper STT.'') s;
          (audio_path, s2) = download_audio W video_url s1
      in case transcribe_audio W audio_path s2 of
           (Inl e, s3) \<Rightarrow> (Inl e, s3)
         | (Inr transcript_text, s3) \<Rightarrow> (Inr (Some transcript_text, None), s3))"

text \<open>
  The result is the pair \<^verbatim>\<open>(transcript_text, error)\<close>, or the exception that leaves
  the function.
\<close>

definition fetch_transcript ::
  "world \<Rightarrow> string \<Rightarrow> state \<Rightarrow> (exn + string option \<times> string option) \<times> state" where
  "fetch_transcript W video_url s =
     (case extract_video_id (lib W) video_url of
        Inl e \<Rightarrow> (Inl e, s)
      | Inr video_id \<Rightarrow>
          (case video_id of
             None \<Rightarrow> (Inr (None, Some ''Invalid YouTube URL.''), s)
           | Some vid \<Rightarrow>
               (if vid = [] then (Inr (None, Some ''Invalid YouTube URL.''), s)
                else
                  (case fetch_transcript_try W vid s of
                     (Inr transcript_text, s1) \<Rightarrow> (Inr (Some transcript_text, None), s1)
                   | (Inl e, s1) \<Rightarrow>
                       (if exc_class_of e = TranscriptsDisabled
                        then fetch_transcript_fallback W video_url s1
                        else (Inr (None, Some (''Error: '' @ str_exn e)), s1))))))"

section \<open>summarizeyt_with_gemini and main\<close>

text \<open>How an f-string formats a value that is a text or \<^verbatim>\<open>None\<close>.\<close>

definition str_opt :: "string option \<Rightarrow> string" where
  "str_opt v = (case v of None \<Rightarrow> ''None'' | Some t \<Rightarrow> t)"

text \<open>The f-string that builds the prompt.\<close>

definition gemini_prompt :: "string option \<Rightarrow> string \<Rightarrow> string" where
  "gemini_prompt text_arg target_language =
     ''Summarize this text so the user can understand the content of the video. ''
     @ ''Note down the important details. Be as natural as possible. ''
     @ ''The summary should be in '' @ target_language @ '':''
     @ [CHR 0x0A, CHR 0x0A] @ str_opt text_arg"

definition summarizeyt_with_gemini ::
  "world \<Rightarrow> string option \<Rightarrow> string \<Rightarrow> state \<Rightarrow> (exn + string) \<times> state" where
  "summarizeyt_with_gemini W text_arg target_language s =
     (let prompt = gemini_prompt text_arg target_language;
          s1 = emit (CallGemini prompt) s
      in (generate_content W ''gemini-1.5-flash'' prompt, s1))"

definition summary_header :: string where
  "summary_header = CHR 0x0A # ''=== Video Summary ===''"

text \<open>
  \<^verbatim>\<open>main\<close> returns normally, or an exception leaves it: \<open>fetch_transcript\<close> is
  called outside any \<^verbatim>\<open>try\<close>.
\<close>

definition main :: "world \<Rightarrow> state \<Rightarrow> (exn + unit) \<times> state" where
  "main W s =
     (let s1 = emit (Prompt ''Enter the YouTube video URL: '') s;
          video_url = stdin_url W;
          s2 = emit (Prompt ''Enter the language for the summary (e.g., English, Vietnamese): '') s1;
          target_language = stdin_language W;
          s3 = emit (Print ''Fetching transcript...'') s2
      in case fetch_transcript W video_url s3 of
           (Inl e, s4) \<Rightarrow> (Inl e, s4)
         | (Inr (transcript_text, error), s4) \<Rightarrow>
             (if error \<noteq> None \<and> error \<noteq> Some []
              then (Inr (), emit (Print (''Error: '' @ str_opt error)) s4)
              else
                (let s5 = emit (Print ''Transcript successfully fetched.'') s4;
                     s6 = emit (Print ''Summarizing with Google Gemini...'') s5
                 in case summarizeyt_with_gemini W transcript_text target_language s6 of
                      (Inr summary, s7) \<Rightarrow>
                        (Inr (), emit (Print summary) (emit (Print summary_header) s7))
                    | (Inl e, s7) \<Rightarrow>
                        (Inr (), emit (Print (''Error during summarization: '' @ str_exn e)) s7))))"

section \<open>Sample runs\<close>

text \<open>
  Concrete worlds on which the theorems below are exercised. In \<open>demo_world\<close> the
  video has an auto-generated English track listed before a manual Vietnamese one, the
  download writes the audio file, and both remote models answer.
\<close>

definition demo_lib :: pylib where
  "demo_lib =
     \<lparr>check_bracketed_host = (\<lambda>h. Some (Exn ValueError ''does not appear to be an IPv4 or IPv6 address'')),
      checknetloc_nfkc = (\<lambda>n. None),
      unquote_escapes = (\<lambda>t. t)\<rparr>"

definition auto_track :: track where
  "auto_track =
     \<lparr>language_code = ''en'', is_generated = True,
      fetch = Inr [\<lparr>entry_text = ''machine''\<rparr>, \<lparr>entry_text = ''made''\<rparr>]\<rparr>"

definition manual_track :: track where
  "manual_track =
     \<lparr>language_code = ''vi'', is_generated = False,
      fetch = Inr [\<lparr>entry_text = ''Hello''\<rparr>, \<lparr>entry_text = ''world''\<rparr>]\<rparr>"

definition demo_download ::
  "ydl_opts \<Rightarrow> string list \<Rightarrow> (string \<rightharpoonup> string) \<Rightarrow> exn option \<times> (string \<rightharpoonup> string)" where
  "demo_download opts urls fs = (None, fs(outtmpl opts \<mapsto> ''ID3-audio-bytes''))"

definition demo_world :: world where
  "demo_world =
     \<lparr>lib = demo_lib,
      stdin_url = ''https://www.youtube.com/watch?v=abc123'',
      stdin_language = ''English'',
      gettempdir = ''/tmp'',
      list_transcripts = (\<lambda>v. Inr [auto_track, manual_track]),
      ydl_download = demo_download,
      whisper_create = (\<lambda>m f r. Inr [''text'' \<mapsto> ''spoken words'']),
      generate_content = (\<lambda>m p. Inr ''A short summary.'')\<rparr>"

definition state0 :: state where
  "state0 = \<lparr>files = Map.empty, trace = []\<rparr>"

text \<open>Captions are disabled: the listing call raises \<^verbatim>\<open>TranscriptsDisabled\<close>.\<close>

definition disabled_world :: world where
  "disabled_world =
     demo_world\<lparr>stdin_url := ''https://youtu.be/xyz789?t=5'',
                list_transcripts := (\<lambda>v. Inl (Exn TranscriptsDisabled ''Subtitles are disabled for this video''))\<rparr>"

text \<open>The listing call succeeds and returns no track.\<close>

definition empty_world :: world where
  "empty_world = demo_world\<lparr>list_transcripts := (\<lambda>v. Inr [])\<rparr>"

text \<open>The listing call fails for another reason.\<close>

definition broken_world :: world where
  "broken_world =
     demo_world\<lparr>list_transcripts := (\<lambda>v. Inl (Exn OtherException ''connection reset''))\<rparr>"

text \<open>Captions are disabled and the download raises, leaving no file behind.\<close>

definition offline_world :: world where
  "offline_world =
     disabled_world\<lparr>ydl_download := (\<lambda>opts urls fs. (Some (Exn OtherException ''ERROR: unable to download''), fs))\<rparr>"

text \<open>The summarizing model fails.\<close>

definition mute_world :: world where
  "mute_world =
     demo_world\<lparr>generate_content := (\<lambda>m p. Inl (Exn OtherException ''quota exceeded''))\<rparr>"

section \<open>Helper lemmas\<close>

lemma find_append_all_fail:
  "\<forall>x\<in>set pre. \<not> P x \<Longrightarrow> find P (pre @ ys) = find P ys"
  by (induction pre) auto

lemma find_none_iff_all: "(find P xs = None) = (\<forall>x\<in>set xs. \<not> P x)"
  by (induction xs) auto

lemma py_join_cons: "py_join sep (x # xs) = x @ concat (map (\<lambda>y. sep @ y) xs)"
  by (induction sep xs arbitrary: x rule: py_join.induct) simp_all

lemma calls_of_emit_Print [simp]: "calls_of (emit (Print m) s) = calls_of s"
  by (simp add: calls_of_def emit_def is_call_def)

lemma calls_of_emit_call:
  "is_call e \<Longrightarrow> calls_of (emit e s) = calls_of s @ [e]"
  by (simp add: calls_of_def emit_def)

lemma files_emit [simp]: "files (emit e s) = files s"
  by (simp add: emit_def)

lemma calls_of_debug_prints [simp]:
  "calls_of (foldl (\<lambda>st t. emit (Print (debug_line t)) st) s ts) = calls_of s"
  by (induction ts arbitrary: s) simp_all

lemma files_debug_prints [simp]:
  "files (foldl (\<lambda>st t. emit (Print (debug_line t)) st) s ts) = files s"
  by (induction ts arbitrary: s) simp_all

lemma download_audio_calls:
  "calls_of (snd (download_audio W url s)) = calls_of s @ [CallDownload url]"
  by (auto simp: download_audio_def Let_def calls_of_def emit_def is_call_def
           split: prod.splits option.splits)

lemma download_audio_Some:
  "fst (download_audio W url s) = Some p \<Longrightarrow>
     p = os_path_join (gettempdir W) ''youtube_audio.mp3'' \<and> files (snd (download_audio W url s)) p \<noteq> None"
  by (auto simp: download_audio_def Let_def emit_def split: prod.splits option.splits if_splits)

lemma transcribe_audio_Inr:
  "fst (transcribe_audio W ap s) = Inr t \<Longrightarrow>
     \<exists>p. ap = Some p \<and> calls_of (snd (transcribe_audio W ap s)) = calls_of s @ [CallWhisper p]"
  by (auto simp: transcribe_audio_def Let_def calls_of_emit_call is_call_def
           split: option.splits sum.splits)

lemma fetch_transcript_try_failure:
  assumes "list_transcripts W vid = Inl e \<or>
           (\<exists>ts t. list_transcripts W vid = Inr ts \<and> best_transcript ts = Some t \<and> fetch t = Inl e)"
  shows "fst (fetch_transcript_try W vid s) = Inl e"
    and "calls_of (snd (fetch_transcript_try W vid s)) = calls_of s @ [CallListTranscripts vid] \<or>
         (\<exists>l. calls_of (snd (fetch_transcript_try W vid s)) =
                 calls_of s @ [CallListTranscripts vid, CallFetch l])"
  using assms
  by (auto simp: fetch_transcript_try_def Let_def calls_of_emit_call is_call_def)

lemma fetch_transcript_try_selected:
  assumes "list_transcripts W vid = Inr ts" and "best_transcript ts = Some t"
  shows "fst (fetch_transcript_try W vid s) =
           (case fetch t of
              Inl e \<Rightarrow> Inl e
            | Inr transcript \<Rightarrow> Inr (py_join '' '' (map entry_text transcript)))"
    and "calls_of (snd (fetch_transcript_try W vid s)) =
           calls_of s @ [CallListTranscripts vid, CallFetch (language_code t)]"
  using assms
  by (auto simp: fetch_transcript_try_def Let_def calls_of_emit_call is_call_def
           split: sum.splits)

lemma fetch_transcript_try_empty:
  assumes "list_transcripts W vid = Inr []"
  shows "fetch_transcript_try W vid s =
           (Inl bare_TranscriptsDisabled,
            emit (Print (''DEBUG: Available transcripts for '' @ vid @ '':''))
              (emit (CallListTranscripts vid) s))"
  using assms by (simp add: fetch_transcript_try_def best_transcript_def)

lemma fetch_transcript_disabled:
  assumes "extract_video_id (lib W) url = Inr (Some vid)" and "vid \<noteq> []"
    and "list_transcripts W vid = Inl e \<or>
         (\<exists>ts t. list_transcripts W vid = Inr ts \<and> best_transcript ts = Some t \<and> fetch t = Inl e)"
    and "exc_class_of e = TranscriptsDisabled"
  shows "fetch_transcript W url s =
           fetch_transcript_fallback W url (snd (fetch_transcript_try W vid s))"
  using assms(1,2,4) fetch_transcript_try_failure(1) [OF assms(3), of s]
  by (cases "fetch_transcript_try W vid s") (simp add: fetch_transcript_def)

lemma fetch_transcript_empty:
  assumes "extract_video_id (lib W) url = Inr (Some vid)" and "vid \<noteq> []"
    and "list_transcripts W vid = Inr []"
  shows "fetch_transcript W url s =
           (Inr (None, Some (''Error: '' @ str_exn bare_TranscriptsDisabled)),
            emit (Print (''DEBUG: Available transcripts for '' @ vid @ '':''))
              (emit (CallListTranscripts vid) s))"
  using assms(1,2)
  by (simp add: fetch_transcript_def fetch_transcript_try_empty [OF assms(3)]
        bare_TranscriptsDisabled_def)

lemma download_audio_fst:
  "fst (download_audio W video_url s) =
     (let output_path = os_path_join (gettempdir W) ''youtube_audio.mp3'';
          outcome = ydl_download W
                      \<lparr>format = ''bestaudio/best'', outtmpl = output_path, quiet = True\<rparr>
                      [video_url] (files s)
      in if fst outcome \<noteq> None \<or> snd outcome output_path = None then None
         else Some output_path)"
  by (simp add: download_audio_def Let_def emit_def split_def split: option.splits)

lemma os_path_join_plain:
  "a \<noteq> [] \<Longrightarrow> last a \<noteq> CHR ''/'' \<Longrightarrow>
     os_path_join a ''youtube_audio.mp3'' = a @ ''/youtube_audio.mp3''"
  by (simp add: os_path_join_def)

lemma urlsplit_no_netloc:
  assumes "split_scheme (url_cleaned url0) = (sch, url3)" and "take 2 url3 \<noteq> ''//''"
  shows "\<exists>r. urlsplit L url0 = Inr r \<and> netloc r = []"
  using assms
  by (simp add: urlsplit_def checknetloc_def Let_def split_def)

lemma urlsplit_with_netloc:
  assumes "split_scheme (url_cleaned url0) = (sch, url3)" and "take 2 url3 = ''//''"
    and "splitnetloc url3 = (nl, url4)"
    and "CHR ''['' \<notin> set nl" and "CHR '']'' \<notin> set nl" and "list_all is_ascii nl"
  shows "\<exists>r. urlsplit L url0 = Inr r \<and> netloc r = nl"
  using assms
  by (simp add: urlsplit_def checknetloc_def Let_def split_def)

lemma url_cleaned_append:
  "p \<noteq> [] \<Longrightarrow> hd p \<notin> set WHATWG_C0_CONTROL_OR_SPACE \<Longrightarrow>
   url_cleaned (p @ t) = filter (\<lambda>c. c \<notin> set UNSAFE_URL_BYTES_TO_REMOVE) p
       @ filter (\<lambda>c. c \<notin> set UNSAFE_URL_BYTES_TO_REMOVE) t"
  by (cases p) (simp_all add: url_cleaned_def)

lemma url_cleaned_prefix:
  assumes "p \<in> {''youtu.be/'', ''www.youtu.be/'', ''http://youtu.be/'', ''https://youtu.be/'',
                 ''http://www.youtu.be/'', ''https://www.youtu.be/''}"
  shows "url_cleaned (p @ t) = p @ filter (\<lambda>c. c \<notin> set UNSAFE_URL_BYTES_TO_REMOVE) t"
proof -
  have "p \<noteq> []" "hd p \<notin> set WHATWG_C0_CONTROL_OR_SPACE"
    using assms by (auto simp: WHATWG_C0_CONTROL_OR_SPACE_def)
  moreover have "filter (\<lambda>c. c \<notin> set UNSAFE_URL_BYTES_TO_REMOVE) p = p"
    using assms by (auto simp: UNSAFE_URL_BYTES_TO_REMOVE_def)
  ultimately show ?thesis by (simp add: url_cleaned_append)
qed

lemma split_scheme_none:
  assumes "CHR ''/'' \<in> set (takeWhile (\<lambda>c. c \<noteq> CHR '':'') u)"
  shows "split_scheme u = ([], u)"
proof -
  have "CHR ''/'' \<notin> set scheme_chars" by (simp add: scheme_chars_def)
  with assms have "\<not> list_all (\<lambda>c. c \<in> set scheme_chars) (takeWhile (\<lambda>c. c \<noteq> CHR '':'') u)"
    by (auto simp: list_all_iff)
  then show ?thesis by (simp add: split_scheme_def Let_def)
qed

lemma split_scheme_http: "split_scheme (''http://'' @ u) = (''http'', ''//'' @ u)"
  by (simp add: split_scheme_def Let_def scheme_chars_def is_ascii_def ascii_isalpha_def
        is_upper_def is_lower_def py_lower_def lower_char_def)

lemma split_scheme_https: "split_scheme (''https://'' @ u) = (''https'', ''//'' @ u)"
  by (simp add: split_scheme_def Let_def scheme_chars_def is_ascii_def ascii_isalpha_def
        is_upper_def is_lower_def py_lower_def lower_char_def)

lemma short_link_netloc:
  assumes "p1 \<in> {[], ''http://'', ''https://''}" and "p2 \<in> {[], ''www.''}"
  shows "\<exists>r. urlsplit L (p1 @ p2 @ ''youtu.be/'' @ t) = Inr r \<and>
             netloc r \<in> {[], ''youtu.be'', ''www.youtu.be''}"
proof -
  define ft where "ft = filter (\<lambda>c. c \<notin> set UNSAFE_URL_BYTES_TO_REMOVE) t"
  define u where "u = p2 @ ''youtu.be/'' @ ft"
  have pre: "p1 @ p2 @ ''youtu.be/'' \<in> {''youtu.be/'', ''www.youtu.be/'', ''http://youtu.be/'',
               ''https://youtu.be/'', ''http://www.youtu.be/'', ''https://www.youtu.be/''}"
    using assms by auto
  have "url_cleaned ((p1 @ p2 @ ''youtu.be/'') @ t) = (p1 @ p2 @ ''youtu.be/'') @ ft"
    unfolding ft_def by (rule url_cleaned_prefix [OF pre])
  then have c: "url_cleaned (p1 @ p2 @ ''youtu.be/'' @ t) = p1 @ u"
    by (simp add: u_def)
  have n: "splitnetloc (''//'' @ u) = (p2 @ ''youtu.be'', ''/'' @ ft)"
    using assms(2) by (auto simp: splitnetloc_def Let_def u_def)
  have ok: "CHR ''['' \<notin> set (p2 @ ''youtu.be'')" "CHR '']'' \<notin> set (p2 @ ''youtu.be'')"
      "list_all is_ascii (p2 @ ''youtu.be'')"
    using assms(2) by (auto simp: is_ascii_def)
  have tk: "take 2 (''//'' @ u) = ''//''" by simp
  have nl: "p2 @ ''youtu.be'' \<in> {[], ''youtu.be'', ''www.youtu.be''}"
    using assms(2) by auto
  consider (plain) "p1 = []" | (http) "p1 = ''http://''" | (https) "p1 = ''https://''"
    using assms(1) by auto
  then show ?thesis
  proof cases
    case plain
    have "CHR ''/'' \<in> set (takeWhile (\<lambda>c. c \<noteq> CHR '':'') u)"
      using assms(2) by (auto simp: u_def)
    then have "split_scheme u = ([], u)" by (rule split_scheme_none)
    then have "split_scheme (p1 @ u) = ([], u)"
      by (simp add: plain)
    then have ss: "split_scheme (url_cleaned (p1 @ p2 @ ''youtu.be/'' @ t)) = ([], u)"
      unfolding c .
    have "take 2 u \<noteq> ''//''"
      using assms(2) by (auto simp: u_def)
    from urlsplit_no_netloc [OF ss this, of L] show ?thesis by blast
  next
    case http
    have ss: "split_scheme (url_cleaned (p1 @ p2 @ ''youtu.be/'' @ t)) = (''http'', ''//'' @ u)"
      unfolding c unfolding http by (rule split_scheme_http)
    from urlsplit_with_netloc [OF ss tk n ok, of L] nl show ?thesis by metis
  next
    case https
    have ss: "split_scheme (url_cleaned (p1 @ p2 @ ''youtu.be/'' @ t)) = (''https'', ''//'' @ u)"
      unfolding c unfolding https by (rule split_scheme_https)
    from urlsplit_with_netloc [OF ss tk n ok, of L] nl show ?thesis by metis
  qed
qed

lemma urlparse_netloc:
  assumes "urlsplit L u = Inr r"
  shows "\<exists>r'. urlparse L u = Inr r' \<and> netloc r' = netloc r \<and> query r' = query r"
  using assms by (simp add: urlparse_def)

lemma hostname_short_link:
  assumes "netloc r \<in> {[], ''youtu.be'', ''www.youtu.be''}"
  shows "hostname r \<notin> {Some ''www.youtube.com'', Some ''youtube.com''}"
  using assms
  by (auto simp: hostname_def py_rpartition_tail_def py_partition_def Let_def py_lower_def
        lower_char_def is_upper_def)

lemma rx_prefix_short_link:
  assumes "p1 \<in> {[], ''http://'', ''https://''}" and "p2 \<in> {[], ''www.''}"
  shows "rx_short_link_prefix (p1 @ p2 @ ''youtu.be/'' @ t) = [t]"
  using assms
  by (auto simp: rx_short_link_prefix_def rx_seq_def rx_opt_def rx_lit_def)

lemma takeWhile_until_stop:
  assumes "\<forall>c\<in>set sid. P c" and "rest = [] \<or> \<not> P (hd rest)"
  shows "takeWhile P (sid @ rest) = sid"
  using assms by (cases rest) (auto simp: takeWhile_append)

lemma re_match_short_link_shape:
  assumes "p1 \<in> {[], ''http://'', ''https://''}" and "p2 \<in> {[], ''www.''}"
    and "sid \<noteq> []" and "\<forall>c\<in>set sid. c \<noteq> CHR ''?'' \<and> c \<noteq> CHR ''&''"
    and "rest = [] \<or> hd rest = CHR ''?'' \<or> hd rest = CHR ''&''"
  shows "re_match_short_link (p1 @ p2 @ ''youtu.be/'' @ sid @ rest) = Some sid"
proof -
  have "takeWhile (\<lambda>c. c \<notin> set ''?&'') (sid @ rest) = sid"
    using assms(4,5) by (intro takeWhile_until_stop) auto
  then have "rx_group1 (sid @ rest) = Some sid"
    using assms(3) by (simp add: rx_group1_def)
  then show ?thesis
    unfolding re_match_short_link_def rx_prefix_short_link [OF assms(1,2)]
    by (simp add: List.map_filter_simps)
qed

lemma invalid_url_no_calls:
  assumes "extract_video_id (lib W) url = Inr None"
  shows "fetch_transcript W url s = (Inr (None, Some ''Invalid YouTube URL.''), s)"
  using assms by (simp add: fetch_transcript_def)

lemma is_delim_simps:
  "is_delim CHR ''/''" "is_delim CHR ''?''" "is_delim CHR ''#''" "is_delim CHR ''@''"
  "is_delim CHR ''[''" "is_delim CHR '']''" "is_delim CHR '':''" "is_delim CHR ''%''"
  by (simp_all add: is_delim_def)

lemma is_unsafe_simps:
  "\<not> is_unsafe CHR ''/''" "\<not> is_unsafe CHR ''?''" "\<not> is_unsafe CHR ''#''" "\<not> is_unsafe CHR '':''"
  "\<not> is_unsafe CHR ''=''" "\<not> is_unsafe CHR ''&''" "\<not> is_unsafe CHR ''v''"
  by (simp_all add: is_unsafe_def UNSAFE_URL_BYTES_TO_REMOVE_def)

lemma filter_unsafe_id:
  "list_all (\<lambda>c. \<not> is_unsafe c) t \<Longrightarrow>
     filter (\<lambda>c. c \<notin> set UNSAFE_URL_BYTES_TO_REMOVE) t = t"
  by (induction t) (auto simp: is_unsafe_def)

lemma upper_char_facts:
  assumes "is_upper c"
  shows "is_ascii c" and "\<not> is_delim c" and "\<not> is_unsafe c"
    and "c \<notin> set WHATWG_C0_CONTROL_OR_SPACE"
  using assms
  by (auto simp: is_upper_def is_ascii_def is_delim_def is_unsafe_def
        UNSAFE_URL_BYTES_TO_REMOVE_def WHATWG_C0_CONTROL_OR_SPACE_def)

lemma lower_char_facts:
  assumes "is_lower c"
  shows "is_ascii c" and "\<not> is_delim c" and "\<not> is_unsafe c"
    and "c \<notin> set WHATWG_C0_CONTROL_OR_SPACE"
  using assms
  by (auto simp: is_lower_def is_ascii_def is_delim_def is_unsafe_def
        UNSAFE_URL_BYTES_TO_REMOVE_def WHATWG_C0_CONTROL_OR_SPACE_def)

lemma scheme_char_facts:
  assumes "c \<in> set scheme_chars"
  shows "c \<noteq> CHR '':''" and "\<not> is_unsafe c"
  using assms
  by (auto simp: scheme_chars_def is_unsafe_def UNSAFE_URL_BYTES_TO_REMOVE_def)

lemma is_ascii_alpha: "ascii_isalpha c \<Longrightarrow> is_ascii c"
  by (auto simp: ascii_isalpha_def upper_char_facts(1) lower_char_facts(1))

lemma alpha_not_c0: "ascii_isalpha c \<Longrightarrow> c \<notin> set WHATWG_C0_CONTROL_OR_SPACE"
  by (auto simp: ascii_isalpha_def upper_char_facts(4) lower_char_facts(4))

lemma host_char_facts:
  assumes "host_char c"
  shows "is_ascii c" and "\<not> is_delim c" and "\<not> is_unsafe c"
proof -
  from assms consider "is_upper c" | "is_lower c" | "c = CHR ''.''"
    unfolding host_char_def by blast
  then show "is_ascii c"
  proof cases
    case 1
    then show ?thesis by (rule upper_char_facts(1))
  next
    case 2
    then show ?thesis by (rule lower_char_facts(1))
  next
    case 3
    then show ?thesis by (simp add: is_ascii_def)
  qed
  from assms consider "is_upper c" | "is_lower c" | "c = CHR ''.''"
    unfolding host_char_def by blast
  then show "\<not> is_delim c"
  proof cases
    case 1
    then show ?thesis by (rule upper_char_facts(2))
  next
    case 2
    then show ?thesis by (rule lower_char_facts(2))
  next
    case 3
    then show ?thesis by (simp add: is_delim_def)
  qed
  from assms consider "is_upper c" | "is_lower c" | "c = CHR ''.''"
    unfolding host_char_def by blast
  then show "\<not> is_unsafe c"
  proof cases
    case 1
    then show ?thesis by (rule upper_char_facts(3))
  next
    case 2
    then show ?thesis by (rule lower_char_facts(3))
  next
    case 3
    then show ?thesis by (simp add: is_unsafe_def UNSAFE_URL_BYTES_TO_REMOVE_def)
  qed
qed

lemma port_char_facts:
  assumes "port_char c"
  shows "is_ascii c" and "c = CHR '':'' \<or> \<not> is_delim c" and "\<not> is_unsafe c"
  using assms
  by (auto simp: port_char_def is_ascii_def is_delim_def is_unsafe_def
        UNSAFE_URL_BYTES_TO_REMOVE_def)

lemma canonical_host_chars:
  assumes "py_lower hraw = ''www.youtube.com'' \<or> py_lower hraw = ''youtube.com''"
  shows "list_all host_char hraw" and "hraw \<noteq> []"
proof -
  have "host_char c" if "c \<in> set hraw" for c
  proof -
    from that have "lower_char c \<in> set (py_lower hraw)"
      by (simp add: py_lower_def)
    with assms have l: "lower_char c \<in> set ''www.youtube.com''"
      by auto
    show ?thesis
    proof (cases "is_upper c")
      case True
      then show ?thesis by (simp add: host_char_def)
    next
      case False
      with l have "c \<in> set ''www.youtube.com''"
        by (simp add: lower_char_def)
      then show ?thesis
        by (auto simp: host_char_def is_lower_def)
    qed
  qed
  then show "list_all host_char hraw"
    by (simp add: list_all_iff)
  from assms show "hraw \<noteq> []"
    by (auto simp: py_lower_def)
qed

lemma split_scheme_general:
  assumes "sch \<noteq> []" and "ascii_isalpha (hd sch)"
    and "list_all (\<lambda>c. c \<in> set scheme_chars) sch"
  shows "split_scheme (sch @ CHR '':'' # u) = (py_lower sch, u)"
proof -
  have "\<forall>c\<in>set sch. c \<noteq> CHR '':''"
    using assms(3) by (auto simp: list_all_iff dest: scheme_char_facts(1))
  then have t: "takeWhile (\<lambda>c. c \<noteq> CHR '':'') (sch @ CHR '':'' # u) = sch"
    by (simp add: takeWhile_append2)
  show ?thesis
    using assms by (simp add: split_scheme_def t Let_def is_ascii_alpha)
qed

lemma url_cleaned_head:
  assumes "a \<noteq> []" and "hd a \<notin> set WHATWG_C0_CONTROL_OR_SPACE"
    and "list_all (\<lambda>c. \<not> is_unsafe c) a"
  shows "url_cleaned (a @ b) = a @ filter (\<lambda>c. c \<notin> set UNSAFE_URL_BYTES_TO_REMOVE) b"
  using assms by (simp add: url_cleaned_append filter_unsafe_id)

lemma takeWhile_upto_char:
  "c \<notin> set a \<Longrightarrow> takeWhile (\<lambda>x. x \<noteq> c) (a @ c # b) = a"
  by (induction a) auto

lemma takeWhile_no_char:
  "c \<notin> set a \<Longrightarrow> takeWhile (\<lambda>x. x \<noteq> c) a = a"
  by (induction a) auto

lemma urlsplit_netloc_query:
  assumes ss: "split_scheme (url_cleaned url0) = (sch', url3)" and tk: "take 2 url3 = ''//''"
    and sn: "splitnetloc url3 = (nl, url4)"
    and br: "CHR ''['' \<notin> set nl" "CHR '']'' \<notin> set nl" and asc: "list_all is_ascii nl"
    and tw: "takeWhile (\<lambda>c. c \<noteq> CHR ''#'') url4 = pth @ CHR ''?'' # q"
    and np: "CHR ''?'' \<notin> set pth"
  shows "\<exists>r. urlsplit L url0 = Inr r \<and> netloc r = nl \<and> query r = q"
proof -
  define url5 where "url5 = (if CHR ''#'' \<in> set url4 then fst (py_partition CHR ''#'' url4) else url4)"
  have u5: "url5 = pth @ CHR ''?'' # q"
  proof (cases "CHR ''#'' \<in> set url4")
    case True
    then show ?thesis by (simp add: url5_def py_partition_def tw)
  next
    case False
    then have "takeWhile (\<lambda>c. c \<noteq> CHR ''#'') url4 = url4"
      by (auto simp: takeWhile_eq_all_conv)
    with False show ?thesis by (simp add: url5_def tw)
  qed
  have q1: "CHR ''?'' \<in> set url5" by (simp add: u5)
  have "takeWhile (\<lambda>c. c \<noteq> CHR ''?'') url5 = pth"
    using np by (simp add: u5 takeWhile_upto_char)
  then have q2: "snd (snd (py_partition CHR ''?'' url5)) = q"
    by (simp add: py_partition_def u5)
  have cn: "checknetloc L nl = None"
    using asc by (simp add: checknetloc_def)
  show ?thesis
  proof (cases "CHR ''#'' \<in> set url4")
    case True
    with q1 q2 have "CHR ''?'' \<in> set (fst (py_partition CHR ''#'' url4))"
      and "snd (snd (py_partition CHR ''?'' (fst (py_partition CHR ''#'' url4)))) = q"
      by (simp_all add: url5_def)
    with True ss tk sn br cn show ?thesis
      by (simp add: urlsplit_def Let_def split_def)
  next
    case False
    with q1 q2 have "CHR ''?'' \<in> set url4"
      and "snd (snd (py_partition CHR ''?'' url4)) = q"
      by (simp_all add: url5_def)
    with False ss tk sn br cn show ?thesis
      by (simp add: urlsplit_def Let_def split_def)
  qed
qed

lemma py_rpartition_tail_none: "c \<notin> set a \<Longrightarrow> py_rpartition_tail c a = a"
  unfolding py_rpartition_tail_def by (simp add: takeWhile_no_char)

lemma hostname_host_port:
  assumes nl: "netloc r = hraw @ port"
    and hc: "list_all host_char hraw" and ne: "hraw \<noteq> []"
    and port: "port = [] \<or> hd port = CHR '':''" "list_all port_char port"
  shows "hostname r = Some (py_lower hraw)"
proof -
  have h: "\<not> is_delim c" if "c \<in> set hraw" for c
    using that hc by (auto simp: list_all_iff dest: host_char_facts(2))
  have p: "c = CHR '':'' \<or> \<not> is_delim c" if "c \<in> set port" for c
    using that port(2) by (auto simp: list_all_iff dest: port_char_facts(2))
  have at: "CHR ''@'' \<notin> set (hraw @ port)"
    using h p is_delim_simps(4) by auto
  have t: "py_rpartition_tail CHR ''@'' (netloc r) = hraw @ port"
    unfolding nl using at by (rule py_rpartition_tail_none)
  have ob: "CHR ''['' \<notin> set (hraw @ port)"
    using h p is_delim_simps(5) by auto
  have nc: "CHR '':'' \<notin> set hraw"
    using h is_delim_simps(7) by auto
  have ho: "takeWhile (\<lambda>x. x \<noteq> CHR '':'') (hraw @ port) = hraw"
  proof (cases port)
    case Nil
    with nc show ?thesis by (simp add: takeWhile_no_char)
  next
    case (Cons x xs)
    with port(1) have "port = CHR '':'' # xs" by simp
    with nc show ?thesis by (simp add: takeWhile_upto_char)
  qed
  have np: "CHR ''%'' \<notin> set hraw"
    using h is_delim_simps(8) by auto
  then have pc: "takeWhile (\<lambda>x. x \<noteq> CHR ''%'') hraw = hraw"
    by (rule takeWhile_no_char)
  have e1: "fst (py_partition CHR ''['' (hraw @ port)) = hraw @ port"
    using ob by (simp add: py_partition_def takeWhile_no_char)
  show ?thesis
    using ob ne np
    by (simp add: hostname_def t Let_def py_partition_def ho pc split_def)
qed

lemma takeWhile_stop_at:
  assumes "\<forall>c\<in>set a. P c" and "b = [] \<or> \<not> P (hd b)"
  shows "takeWhile P (a @ b) = a"
  using assms by (cases b) (auto simp: takeWhile_append)

lemma canonical_url_components:
  assumes sch: "sch \<noteq> []" "ascii_isalpha (hd sch)" "list_all (\<lambda>c. c \<in> set scheme_chars) sch"
    and host: "py_lower hraw = ''www.youtube.com'' \<or> py_lower hraw = ''youtube.com''"
    and port: "port = [] \<or> hd port = CHR '':''" "list_all port_char port"
    and pth: "pth = [] \<or> hd pth = CHR ''/''"
             "list_all (\<lambda>c. c \<noteq> CHR ''?'' \<and> c \<noteq> CHR ''#'' \<and> \<not> is_unsafe c) pth"
    and q: "list_all (\<lambda>c. c \<noteq> CHR ''#'' \<and> \<not> is_unsafe c) q"
    and frag: "frag = [] \<or> hd frag = CHR ''#''"
  shows "\<exists>r. urlparse L (sch @ ''://'' @ hraw @ port @ pth @ ''?'' @ q @ frag) = Inr r
             \<and> hostname r = Some (py_lower hraw) \<and> query r = q"
proof -
  define F where "F = filter (\<lambda>c. c \<notin> set UNSAFE_URL_BYTES_TO_REMOVE)"
  define tail where "tail = pth @ CHR ''?'' # q @ F frag"
  define nl where "nl = hraw @ port"
  define A where "A = sch @ ''://'' @ nl @ pth @ CHR ''?'' # q"
  note hc = canonical_host_chars [OF host]
  have safe_sch: "list_all (\<lambda>c. \<not> is_unsafe c) sch"
    using sch(3) by (auto simp: list_all_iff dest: scheme_char_facts(2))
  have safe_nl: "list_all (\<lambda>c. \<not> is_unsafe c) nl"
    using hc(1) port(2)
    by (auto simp: nl_def list_all_iff dest: host_char_facts(3) port_char_facts(3))
  have safe_pth: "list_all (\<lambda>c. \<not> is_unsafe c) pth"
    using pth(2) by (auto simp: list_all_iff)
  have safe_q: "list_all (\<lambda>c. \<not> is_unsafe c) q"
    using q by (auto simp: list_all_iff)
  have safe_A: "list_all (\<lambda>c. \<not> is_unsafe c) A"
    using safe_sch safe_nl safe_pth safe_q is_unsafe_simps
    by (simp add: A_def)
  have A_ne: "A \<noteq> []" using sch(1) by (simp add: A_def)
  have "hd A = hd sch" using sch(1) by (simp add: A_def)
  then have hdA: "hd A \<notin> set WHATWG_C0_CONTROL_OR_SPACE"
    using sch(2) by (simp add: alpha_not_c0)
  have url: "sch @ ''://'' @ hraw @ port @ pth @ ''?'' @ q @ frag = A @ frag"
    by (simp add: A_def nl_def)
  have cl: "url_cleaned (A @ frag) = sch @ CHR '':'' # (''//'' @ nl @ tail)"
    unfolding url_cleaned_head [OF A_ne hdA safe_A]
    by (simp add: A_def tail_def F_def)
  have ss: "split_scheme (url_cleaned (A @ frag)) = (py_lower sch, ''//'' @ nl @ tail)"
    unfolding cl by (rule split_scheme_general [OF sch])
  have tk: "take 2 (''//'' @ nl @ tail) = ''//''" by simp
  have nodelim: "\<forall>c\<in>set nl. c \<notin> set ''/?#''"
  proof
    fix c assume "c \<in> set nl"
    then have "c = CHR '':'' \<or> \<not> is_delim c"
      using hc(1) port(2)
      by (auto simp: nl_def list_all_iff dest: host_char_facts(2) port_char_facts(2))
    then show "c \<notin> set ''/?#''"
      using is_delim_simps(1,2,3) by auto
  qed
  have tail_hd: "tail = [] \<or> \<not> hd tail \<notin> set ''/?#''"
    using pth(1) by (cases pth) (auto simp: tail_def)
  have "takeWhile (\<lambda>c. c \<notin> set ''/?#'') (nl @ tail) = nl"
    using nodelim tail_hd by (rule takeWhile_stop_at)
  then have sn: "splitnetloc (''//'' @ nl @ tail) = (nl, tail)"
    by (simp add: splitnetloc_def Let_def)
  have br: "CHR ''['' \<notin> set nl" "CHR '']'' \<notin> set nl"
  proof -
    have d: "c = CHR '':'' \<or> \<not> is_delim c" if "c \<in> set nl" for c
      using that hc(1) port(2)
      by (auto simp: nl_def list_all_iff dest: host_char_facts(2) port_char_facts(2))
    show "CHR ''['' \<notin> set nl" using d is_delim_simps(5) by auto
    show "CHR '']'' \<notin> set nl" using d is_delim_simps(6) by auto
  qed
  have asc: "list_all is_ascii nl"
    using hc(1) port(2)
    by (auto simp: nl_def list_all_iff dest: host_char_facts(1) port_char_facts(1))
  have Ff: "F frag = [] \<or> \<not> hd (F frag) \<noteq> CHR ''#''"
    using frag by (cases frag) (auto simp: F_def UNSAFE_URL_BYTES_TO_REMOVE_def)
  have nh: "\<forall>c\<in>set (pth @ CHR ''?'' # q). c \<noteq> CHR ''#''"
    using pth(2) q by (auto simp: list_all_iff)
  have "takeWhile (\<lambda>c. c \<noteq> CHR ''#'') ((pth @ CHR ''?'' # q) @ F frag) = pth @ CHR ''?'' # q"
    using nh Ff by (rule takeWhile_stop_at)
  then have tw: "takeWhile (\<lambda>c. c \<noteq> CHR ''#'') tail = pth @ CHR ''?'' # q"
    by (simp add: tail_def)
  have np: "CHR ''?'' \<notin> set pth"
    using pth(2) by (auto simp: list_all_iff)
  from urlsplit_netloc_query [OF ss tk sn br asc tw np, of L]
  obtain r where r: "urlsplit L (A @ frag) = Inr r" "netloc r = nl" "query r = q"
    by blast
  from urlparse_netloc [OF r(1)]
  obtain r' where r': "urlparse L (A @ frag) = Inr r'" "netloc r' = netloc r" "query r' = query r"
    by blast
  have "netloc r' = hraw @ port"
    using r'(2) r(2) by (simp add: nl_def)
  then have "hostname r' = Some (py_lower hraw)"
    using hc port by (rule hostname_host_port)
  with r' r(3) show ?thesis
    unfolding url by blast
qed

lemma py_split_field:
  "c \<notin> set f \<Longrightarrow> py_split c (f @ c # t) = f # py_split c t"
  by (induction f) (auto split: list.splits)

lemma py_split_single:
  "c \<notin> set f \<Longrightarrow> py_split c f = [f]"
  by (induction f) (auto split: list.splits)

lemma py_split_fields:
  "\<forall>f\<in>set fs. c \<notin> set f \<Longrightarrow>
     py_split c (concat (map (\<lambda>f. f @ [c]) fs) @ t) = fs @ py_split c t"
  by (induction fs) (simp_all add: py_split_field)

lemma collect_pairs_head:
  "m k = Some (x # xs) \<Longrightarrow> \<exists>ys. collect_pairs ps m k = Some (x # ys)"
proof (induction ps arbitrary: m xs)
  case Nil
  then show ?case by simp
next
  case (Cons p ps)
  obtain n v where p: "p = (n, v)" by (cases p)
  show ?case
  proof (cases "n = k")
    case True
    with Cons.prems p show ?thesis
      by (auto intro: Cons.IH)
  next
    case False
    with Cons.prems p show ?thesis
      by (auto split: option.splits intro: Cons.IH)
  qed
qed

lemma collect_pairs_first:
  assumes "\<forall>p\<in>set A. fst p \<noteq> k" and "m k = None"
  shows "\<exists>ys. collect_pairs (A @ (k, x) # B) m k = Some (x # ys)"
  using assms
proof (induction A arbitrary: m)
  case Nil
  then show ?case by (auto intro: collect_pairs_head)
next
  case (Cons p A)
  obtain n v where p: "p = (n, v)" by (cases p)
  with Cons.prems have "n \<noteq> k" by auto
  with Cons.prems p show ?case
    by (auto split: option.splits intro: Cons.IH)
qed

lemma unquote_plus_plain:
  "CHR ''%'' \<notin> set t \<Longrightarrow> CHR ''+'' \<notin> set t \<Longrightarrow> unquote_plus L t = t"
proof -
  assume a: "CHR ''%'' \<notin> set t" and b: "CHR ''+'' \<notin> set t"
  from b have "map (\<lambda>c. if c = CHR ''+'' then CHR '' '' else c) t = t"
    by (induction t) auto
  with a show ?thesis by (simp add: unquote_plus_def unquote_def)
qed

lemma unquote_plus_not_v:
  assumes "CHR ''%'' \<notin> set n" and "n \<noteq> ''v''"
  shows "unquote_plus L n \<noteq> ''v''"
proof -
  let ?m = "map (\<lambda>c. if c = CHR ''+'' then CHR '' '' else c) n"
  have "CHR ''%'' \<notin> set ?m" using assms(1) by auto
  then have u: "unquote_plus L n = ?m"
    by (simp add: unquote_plus_def unquote_def)
  have "?m \<noteq> ''v''"
  proof
    assume e: "?m = ''v''"
    then obtain c where n: "n = [c]" by (cases n) auto
    with e have "c = CHR ''v''" by (auto split: if_splits)
    with n assms(2) show False by simp
  qed
  with u show ?thesis by simp
qed

lemma parse_qs_first_v:
  assumes others: "list_all other_field others"
    and x0: "X0 \<noteq> []" "CHR ''&'' \<notin> set X0"
    and rest: "rest = [] \<or> hd rest = CHR ''&''"
  shows "first_v (parse_qs L (concat (map (\<lambda>f. f @ ''&'') others) @ ''v='' @ X0 @ rest))
           = Inr (Some (unquote_plus L X0))"
proof -
  define g where "g = (\<lambda>name_value.
             if name_value \<noteq> [] then
               (let (name, has_eq, val) = py_partition CHR ''='' name_value
                in if val \<noteq> [] then [(unquote_plus L name, unquote_plus L val)] else [])
             else [])"
  define vf where "vf = ''v='' @ X0"
  define q where "q = concat (map (\<lambda>f. f @ ''&'') others) @ vf @ rest"
  have qne: "q \<noteq> []" by (simp add: q_def vf_def)
  have pq: "parse_qsl L q = concat (map g (py_split CHR ''&'' q))"
    using qne by (simp add: parse_qsl_def g_def)
  have na: "\<forall>f\<in>set others. CHR ''&'' \<notin> set f"
    using others by (auto simp: list_all_iff other_field_def)
  have nv: "CHR ''&'' \<notin> set vf"
    using x0(2) by (simp add: vf_def)
  obtain more where more: "py_split CHR ''&'' (vf @ rest) = vf # more"
  proof (cases rest)
    case Nil
    with nv have "py_split CHR ''&'' (vf @ rest) = vf # []"
      by (simp add: py_split_single)
    then show ?thesis by (rule that)
  next
    case (Cons x xs)
    with rest have "rest = CHR ''&'' # xs" by simp
    with nv have "py_split CHR ''&'' (vf @ rest) = vf # py_split CHR ''&'' xs"
      by (simp add: py_split_field)
    then show ?thesis by (rule that)
  qed
  have sp: "py_split CHR ''&'' q = others @ vf # more"
    unfolding q_def using py_split_fields [OF na, of "vf @ rest"] more by simp
  have gv: "g vf = [(''v'', unquote_plus L X0)]"
    using x0(1) by (simp add: g_def vf_def py_partition_def unquote_plus_def unquote_def)
  have go: "\<forall>p\<in>set (g f). fst p \<noteq> ''v''" if "f \<in> set others" for f
  proof -
    from that others have o: "other_field f" by (simp add: list_all_iff)
    have pp: "py_partition CHR ''='' f = (query_field_name f, CHR ''='' \<in> set f, query_field_value f)"
      by (simp add: py_partition_def query_field_name_def query_field_value_def Let_def)
    show ?thesis
    proof (cases "f = [] \<or> query_field_value f = []")
      case True
      then show ?thesis by (auto simp: g_def pp)
    next
      case False
      with o have "CHR ''%'' \<notin> set (query_field_name f)" "query_field_name f \<noteq> ''v''"
        by (auto simp: other_field_def)
      then have "unquote_plus L (query_field_name f) \<noteq> ''v''"
        by (rule unquote_plus_not_v)
      with False show ?thesis by (auto simp: g_def pp)
    qed
  qed
  then have A: "\<forall>p\<in>set (concat (map g others)). fst p \<noteq> ''v''"
    by auto
  have "parse_qsl L q = concat (map g others) @ (''v'', unquote_plus L X0) # concat (map g more)"
    by (simp add: pq sp gv)
  then have "\<exists>ys. parse_qs L q ''v'' = Some (unquote_plus L X0 # ys)"
    unfolding parse_qs_def using collect_pairs_first [OF A, of Map.empty] by simp
  then have "first_v (parse_qs L q) = Inr (Some (unquote_plus L X0))"
    by (auto simp: first_v_def)
  then show ?thesis by (simp add: q_def vf_def)
qed

section \<open>Track selection\<close>

text \<open>
  Claim C1. For the list the listing call returns, the acquirer fetches the first manual
  track when there is one (every track before it being auto-generated, whatever
  follows), and the first track when all are auto-generated: that track is the one
  selected, its fetch decides the result, and the calls made are the listing and the
  fetch of that track. On an empty list, however, the acquirer does not end up in the
  captions-disabled case: the statement \<^verbatim>\<open>raise TranscriptsDisabled\<close> raises a
  \<^verbatim>\<open>TypeError\<close>, which is not of class \<^verbatim>\<open>TranscriptsDisabled\<close>.
\<close>

theorem track_selection_and_empty_list:
  assumes "list_transcripts W vid = Inr ts"
  shows "(ts = pre @ m # post \<and> list_all is_generated pre \<and> \<not> is_generated m \<longrightarrow>
            best_transcript ts = Some m
          \<and> fst (fetch_transcript_try W vid s) =
               (case fetch m of
                  Inl e \<Rightarrow> Inl e
                | Inr transcript \<Rightarrow> Inr (py_join '' '' (map entry_text transcript)))
          \<and> calls_of (snd (fetch_transcript_try W vid s)) =
               calls_of s @ [CallListTranscripts vid, CallFetch (language_code m)])
       \<and> (ts \<noteq> [] \<and> list_all is_generated ts \<longrightarrow>
            best_transcript ts = Some (hd ts)
          \<and> fst (fetch_transcript_try W vid s) =
               (case fetch (hd ts) of
                  Inl e \<Rightarrow> Inl e
                | Inr transcript \<Rightarrow> Inr (py_join '' '' (map entry_text transcript)))
          \<and> calls_of (snd (fetch_transcript_try W vid s)) =
               calls_of s @ [CallListTranscripts vid, CallFetch (language_code (hd ts))])
       \<and> (ts = [] \<longrightarrow>
            fst (fetch_transcript_try W vid s) = Inl bare_TranscriptsDisabled
          \<and> exc_class_of bare_TranscriptsDisabled \<noteq> TranscriptsDisabled)"
proof (intro conjI impI)
  assume h: "ts = pre @ m # post \<and> list_all is_generated pre \<and> \<not> is_generated m"
  then have "find (\<lambda>t. \<not> is_generated t) ts = Some m"
    by (simp add: find_append_all_fail list_all_iff)
  then show b: "best_transcript ts = Some m"
    by (simp add: best_transcript_def)
  show "fst (fetch_transcript_try W vid s) =
               (case fetch m of
                  Inl e \<Rightarrow> Inl e
                | Inr transcript \<Rightarrow> Inr (py_join '' '' (map entry_text transcript)))"
    by (rule fetch_transcript_try_selected(1) [OF assms b])
  show "calls_of (snd (fetch_transcript_try W vid s)) =
               calls_of s @ [CallListTranscripts vid, CallFetch (language_code m)]"
    by (rule fetch_transcript_try_selected(2) [OF assms b])
next
  assume h: "ts \<noteq> [] \<and> list_all is_generated ts"
  then have "find (\<lambda>t. \<not> is_generated t) ts = None"
    by (simp add: find_none_iff_all list_all_iff)
  moreover from h have "find is_generated ts = Some (hd ts)"
    by (cases ts) simp_all
  ultimately show b: "best_transcript ts = Some (hd ts)"
    by (simp add: best_transcript_def)
  show "fst (fetch_transcript_try W vid s) =
               (case fetch (hd ts) of
                  Inl e \<Rightarrow> Inl e
                | Inr transcript \<Rightarrow> Inr (py_join '' '' (map entry_text transcript)))"
    by (rule fetch_transcript_try_selected(1) [OF assms b])
  show "calls_of (snd (fetch_transcript_try W vid s)) =
               calls_of s @ [CallListTranscripts vid, CallFetch (language_code (hd ts))]"
    by (rule fetch_transcript_try_selected(2) [OF assms b])
next
  assume "ts = []"
  with assms show "fst (fetch_transcript_try W vid s) = Inl bare_TranscriptsDisabled"
    by (simp add: fetch_transcript_try_empty)
next
  show "exc_class_of bare_TranscriptsDisabled \<noteq> TranscriptsDisabled"
    by (simp add: bare_TranscriptsDisabled_def)
qed

theorem track_selection_and_empty_list_witness:
  "fst (fetch_transcript_try demo_world ''abc123'' state0) = Inr ''Hello world''
   \<and> calls_of (snd (fetch_transcript_try demo_world ''abc123'' state0)) =
       [CallListTranscripts ''abc123'', CallFetch ''vi'']
   \<and> fst (fetch_transcript_try
          (demo_world\<lparr>list_transcripts :=
             (\<lambda>v. Inr [auto_track, auto_track\<lparr>language_code := ''de''\<rparr>])\<rparr>) ''abc123'' state0)
       = Inr ''machine made''
   \<and> fst (fetch_transcript_try empty_world ''abc123'' state0) = Inl bare_TranscriptsDisabled"
proof -
  let ?W2 = "demo_world\<lparr>list_transcripts :=
               (\<lambda>v. Inr [auto_track, auto_track\<lparr>language_code := ''de''\<rparr>])\<rparr>"
  have l1: "list_transcripts demo_world ''abc123'' = Inr [auto_track, manual_track]"
    by (simp add: demo_world_def)
  have l2: "list_transcripts ?W2 ''abc123'' = Inr [auto_track, auto_track\<lparr>language_code := ''de''\<rparr>]"
    by simp
  have l3: "list_transcripts empty_world ''abc123'' = Inr []"
    by (simp add: empty_world_def)
  have z: "calls_of state0 = []"
    by (simp add: calls_of_def state0_def)
  from track_selection_and_empty_list [OF l1, of "[auto_track]" manual_track "[]" state0]
  have a: "fst (fetch_transcript_try demo_world ''abc123'' state0) = Inr ''Hello world''
           \<and> calls_of (snd (fetch_transcript_try demo_world ''abc123'' state0)) =
               [CallListTranscripts ''abc123'', CallFetch ''vi'']"
    by (simp add: auto_track_def manual_track_def z)
  from track_selection_and_empty_list [OF l2, of "[]" manual_track "[]" state0]
  have b: "fst (fetch_transcript_try ?W2 ''abc123'' state0) = Inr ''machine made''"
    by (simp add: auto_track_def)
  from track_selection_and_empty_list [OF l3, of "[]" manual_track "[]" state0]
  have c: "fst (fetch_transcript_try empty_world ''abc123'' state0) = Inl bare_TranscriptsDisabled"
    by simp
  from a b c show ?thesis by simp
qed

section \<open>Joining the caption entries\<close>

text \<open>
  Claim C10. When a track is listed, selected and fetched, \<open>fetch_transcript\<close> returns,
  with no error, the empty text for no entries and otherwise the text of the first
  entry followed by each further entry's text with one space before it; for entries
  with the texts \<^verbatim>\<open>["Hello", "world"]\<close> this is exactly \<^verbatim>\<open>"Hello world"\<close>.
\<close>

theorem captions_joined_with_spaces:
  assumes "extract_video_id (lib W) url = Inr (Some vid)" and "vid \<noteq> []"
    and "list_transcripts W vid = Inr ts"
    and "best_transcript ts = Some t"
    and "fetch t = Inr entries"
  shows "fst (fetch_transcript W url s) =
           Inr (Some (case entries of
                        [] \<Rightarrow> []
                      | e # es \<Rightarrow> entry_text e @ concat (map (\<lambda>y. '' '' @ entry_text y) es)),
                None)
         \<and> (map entry_text entries = [''Hello'', ''world''] \<longrightarrow>
              fst (fetch_transcript W url s) = Inr (Some ''Hello world'', None))"
proof -
  have j: "py_join '' '' (map entry_text entries) =
             (case entries of
                [] \<Rightarrow> []
              | e # es \<Rightarrow> entry_text e @ concat (map (\<lambda>y. '' '' @ entry_text y) es))"
    by (cases entries) (simp_all add: py_join_cons comp_def)
  have r: "fst (fetch_transcript W url s) = Inr (Some (py_join '' '' (map entry_text entries)), None)"
    using assms by (simp add: fetch_transcript_def fetch_transcript_try_def Let_def)
  have h: "fst (fetch_transcript W url s) = Inr (Some ''Hello world'', None)"
    if "map entry_text entries = [''Hello'', ''world'']"
    using r that by simp
  from r j h show ?thesis by simp
qed

theorem captions_joined_with_spaces_witness:
  "fst (fetch_transcript demo_world ''https://www.youtube.com/watch?v=abc123'' state0)
     = Inr (Some ''Hello world'', None)
   \<and> fst (fetch_transcript
            (demo_world\<lparr>list_transcripts := (\<lambda>v. Inr [auto_track])\<rparr>)
            ''https://www.youtube.com/watch?v=abc123'' state0)
     = Inr (Some ''machine made'', None)"
proof -
  let ?W2 = "demo_world\<lparr>list_transcripts := (\<lambda>v. Inr [auto_track])\<rparr>"
  have a: "extract_video_id (lib demo_world) ''https://www.youtube.com/watch?v=abc123''
             = Inr (Some ''abc123'')"
    by code_simp
  have a2: "extract_video_id (lib ?W2) ''https://www.youtube.com/watch?v=abc123''
             = Inr (Some ''abc123'')"
    by code_simp
  have b: "list_transcripts demo_world ''abc123'' = Inr [auto_track, manual_track]"
    by (simp add: demo_world_def)
  have b2: "list_transcripts ?W2 ''abc123'' = Inr [auto_track]"
    by simp
  have c: "best_transcript [auto_track, manual_track] = Some manual_track"
    by (simp add: best_transcript_def auto_track_def manual_track_def)
  have c2: "best_transcript [auto_track] = Some auto_track"
    by (simp add: best_transcript_def auto_track_def)
  have d: "fetch manual_track = Inr [\<lparr>entry_text = ''Hello''\<rparr>, \<lparr>entry_text = ''world''\<rparr>]"
    by (simp add: manual_track_def)
  have d2: "fetch auto_track = Inr [\<lparr>entry_text = ''machine''\<rparr>, \<lparr>entry_text = ''made''\<rparr>]"
    by (simp add: auto_track_def)
  have e: "''abc123'' \<noteq> []" by simp
  from captions_joined_with_spaces [OF a e b c d, of state0]
  have first: "fst (fetch_transcript demo_world ''https://www.youtube.com/watch?v=abc123'' state0)
     = Inr (Some ''Hello world'', None)"
    by simp
  from captions_joined_with_spaces [OF a2 e b2 c2 d2, of state0]
  have second: "fst (fetch_transcript ?W2 ''https://www.youtube.com/watch?v=abc123'' state0)
     = Inr (Some ''machine made'', None)"
    by simp
  from first second show ?thesis by simp
qed

section \<open>The audio fetcher\<close>

text \<open>
  Claim C8. \<open>download_audio\<close> returns \<^verbatim>\<open>None\<close> exactly when the download raises or
  the output file is missing afterwards, and the output path otherwise. The path is
  \<^verbatim>\<open>os.path.join(tempfile.gettempdir(), "youtube_audio.mp3")\<close>, in which the video
  does not occur; for a temporary directory that does not end in a slash this is the
  directory followed by \<^verbatim>\<open>/youtube_audio.mp3\<close>.
\<close>

theorem download_audio_result:
  "fst (download_audio W video_url s) =
     (let output_path = os_path_join (gettempdir W) ''youtube_audio.mp3'';
          outcome = ydl_download W
                      \<lparr>format = ''bestaudio/best'', outtmpl = output_path, quiet = True\<rparr>
                      [video_url] (files s)
      in if fst outcome \<noteq> None \<or> snd outcome output_path = None then None
         else Some output_path)
   \<and> (gettempdir W \<noteq> [] \<and> last (gettempdir W) \<noteq> CHR ''/'' \<longrightarrow>
        os_path_join (gettempdir W) ''youtube_audio.mp3'' = gettempdir W @ ''/youtube_audio.mp3'')"
  using download_audio_fst [of W video_url s] os_path_join_plain [of "gettempdir W"]
  by blast

theorem download_audio_result_witness:
  "fst (download_audio demo_world ''https://youtu.be/xyz789?t=5'' state0)
     = Some ''/tmp/youtube_audio.mp3''
   \<and> fst (download_audio offline_world ''https://youtu.be/xyz789?t=5'' state0) = None
   \<and> fst (download_audio (demo_world\<lparr>ydl_download := (\<lambda>opts urls fs. (None, fs))\<rparr>)
             ''https://www.youtube.com/watch?v=abc123'' state0) = None"
  using download_audio_result [of demo_world "''https://youtu.be/xyz789?t=5''" state0]
        download_audio_result [of offline_world "''https://youtu.be/xyz789?t=5''" state0]
        download_audio_result [of "demo_world\<lparr>ydl_download := (\<lambda>opts urls fs. (None, fs))\<rparr>"
             "''https://www.youtube.com/watch?v=abc123''" state0]
  by (simp add: demo_world_def offline_world_def disabled_world_def demo_download_def state0_def
        os_path_join_def Let_def)

section \<open>The captions-disabled fallback\<close>

text \<open>
  Claim C2. When the identifier is found and the listing call raises
  \<^verbatim>\<open>TranscriptsDisabled\<close>, \<open>fetch_transcript\<close> prints the notice, calls
  \<open>download_audio\<close> and hands its result to \<open>transcribe_audio\<close>; whenever the
  transcriber returns a text, that text is returned with no error, after exactly the
  calls listing, download, transcription in this order; and the error component of the
  result is never set on this path. When the listing call returns an empty list
  instead, none of this happens: \<open>fetch_transcript\<close> returns no transcript and an error
  text, and the listing call is the only call made.
\<close>

theorem disabled_fallback_and_empty_list:
  assumes "extract_video_id (lib W) url = Inr (Some vid)" and "vid \<noteq> []"
  shows "(list_transcripts W vid = Inl (Exn TranscriptsDisabled m) \<longrightarrow>
           (let s1 = emit (Print ''Captions are disabled. Using Whisper STT.'')
                       (emit (CallListTranscripts vid) s);
                downloaded = download_audio W url s1;
                transcribed = transcribe_audio W (fst downloaded) (snd downloaded)
            in fetch_transcript W url s =
                 (case fst transcribed of
                    Inl e \<Rightarrow> Inl e
                  | Inr transcript_text \<Rightarrow> Inr (Some transcript_text, None),
                  snd transcribed))
           \<and> (fst (fetch_transcript W url s) = Inr (Some transcript_text, None) \<longrightarrow>
                calls_of (snd (fetch_transcript W url s)) =
                  calls_of s @ [CallListTranscripts vid, CallDownload url,
                                CallWhisper (os_path_join (gettempdir W) ''youtube_audio.mp3'')])
           \<and> fst (fetch_transcript W url s) \<noteq> Inr (anything, Some err))
       \<and> (list_transcripts W vid = Inr [] \<longrightarrow>
            fst (fetch_transcript W url s) =
              Inr (None, Some (''Error: '' @ str_exn bare_TranscriptsDisabled))
          \<and> calls_of (snd (fetch_transcript W url s)) = calls_of s @ [CallListTranscripts vid])"
proof (intro conjI impI)
  assume l: "list_transcripts W vid = Inr []"
  show "fst (fetch_transcript W url s) =
          Inr (None, Some (''Error: '' @ str_exn bare_TranscriptsDisabled))"
    by (simp add: fetch_transcript_empty [OF assms l])
  show "calls_of (snd (fetch_transcript W url s)) = calls_of s @ [CallListTranscripts vid]"
    by (simp add: fetch_transcript_empty [OF assms l] calls_of_emit_call is_call_def)
next
  assume l: "list_transcripts W vid = Inl (Exn TranscriptsDisabled m)"
  define s1 where "s1 = emit (Print ''Captions are disabled. Using Whisper STT.'')
                     (emit (CallListTranscripts vid) s)"
  define downloaded where "downloaded = download_audio W url s1"
  define transcribed where "transcribed = transcribe_audio W (fst downloaded) (snd downloaded)"
  have t: "snd (fetch_transcript_try W vid s) = emit (CallListTranscripts vid) s"
    using l by (simp add: fetch_transcript_try_def)
  have d: "list_transcripts W vid = Inl (Exn TranscriptsDisabled m) \<or>
           (\<exists>ts t. list_transcripts W vid = Inr ts \<and> best_transcript ts = Some t
              \<and> fetch t = Inl (Exn TranscriptsDisabled m))"
    using l by simp
  have k: "exc_class_of (Exn TranscriptsDisabled m) = TranscriptsDisabled"
    by simp
  have eq: "fetch_transcript W url s =
               (case fst transcribed of
                  Inl e \<Rightarrow> Inl e
                | Inr transcript_text \<Rightarrow> Inr (Some transcript_text, None),
                snd transcribed)"
    unfolding fetch_transcript_disabled [OF assms d k] t
    by (simp add: fetch_transcript_fallback_def Let_def s1_def downloaded_def transcribed_def
          split: prod.splits sum.splits)
  have c1: "calls_of s1 = calls_of s @ [CallListTranscripts vid]"
    by (simp add: s1_def calls_of_emit_call is_call_def)
  have c2: "calls_of (snd downloaded) = calls_of s @ [CallListTranscripts vid, CallDownload url]"
    by (simp add: downloaded_def download_audio_calls c1)
  show "let s1 = emit (Print ''Captions are disabled. Using Whisper STT.'')
                       (emit (CallListTranscripts vid) s);
                downloaded = download_audio W url s1;
                transcribed = transcribe_audio W (fst downloaded) (snd downloaded)
            in fetch_transcript W url s =
                 (case fst transcribed of
                    Inl e \<Rightarrow> Inl e
                  | Inr transcript_text \<Rightarrow> Inr (Some transcript_text, None),
                  snd transcribed)"
    using eq by (simp add: Let_def s1_def downloaded_def transcribed_def)
  show "fst (fetch_transcript W url s) \<noteq> Inr (anything, Some err)"
    using eq by (auto split: sum.splits)
  assume ok: "fst (fetch_transcript W url s) = Inr (Some transcript_text, None)"
  from ok eq have "fst transcribed = Inr transcript_text"
    by (auto split: sum.splits)
  then obtain p where p: "fst downloaded = Some p"
    and w: "calls_of (snd transcribed) = calls_of (snd downloaded) @ [CallWhisper p]"
    unfolding transcribed_def by (auto dest: transcribe_audio_Inr)
  from p have "p = os_path_join (gettempdir W) ''youtube_audio.mp3''"
    unfolding downloaded_def by (auto dest: download_audio_Some)
  with w c2 eq show "calls_of (snd (fetch_transcript W url s)) =
                calls_of s @ [CallListTranscripts vid, CallDownload url,
                              CallWhisper (os_path_join (gettempdir W) ''youtube_audio.mp3'')]"
    by simp
qed

theorem disabled_fallback_and_empty_list_witness:
  "fst (fetch_transcript disabled_world ''https://youtu.be/xyz789?t=5'' state0)
     = Inr (Some ''spoken words'', None)
   \<and> calls_of (snd (fetch_transcript disabled_world ''https://youtu.be/xyz789?t=5'' state0))
       = [CallListTranscripts ''xyz789'', CallDownload ''https://youtu.be/xyz789?t=5'',
          CallWhisper ''/tmp/youtube_audio.mp3'']
   \<and> fst (fetch_transcript empty_world ''https://youtu.be/xyz789?t=5'' state0)
       = Inr (None, Some (''Error: '' @ str_exn bare_TranscriptsDisabled))
   \<and> calls_of (snd (fetch_transcript empty_world ''https://youtu.be/xyz789?t=5'' state0))
       = [CallListTranscripts ''xyz789'']"
proof -
  let ?url = "''https://youtu.be/xyz789?t=5''"
  have a: "extract_video_id (lib disabled_world) ?url = Inr (Some ''xyz789'')"
    by code_simp
  have a2: "extract_video_id (lib empty_world) ?url = Inr (Some ''xyz789'')"
    by code_simp
  have b: "''xyz789'' \<noteq> []" by simp
  have c: "list_transcripts disabled_world ''xyz789''
             = Inl (Exn TranscriptsDisabled ''Subtitles are disabled for this video'')"
    by (simp add: disabled_world_def)
  have c2: "list_transcripts empty_world ''xyz789'' = Inr []"
    by (simp add: empty_world_def)
  have r: "fst (fetch_transcript disabled_world ?url state0) = Inr (Some ''spoken words'', None)"
    by code_simp
  have g: "gettempdir disabled_world = ''/tmp''"
    by (simp add: disabled_world_def demo_world_def)
  have j: "os_path_join ''/tmp'' ''youtube_audio.mp3'' = ''/tmp/youtube_audio.mp3''"
    by (simp add: os_path_join_def)
  have z: "calls_of state0 = []"
    by (simp add: calls_of_def state0_def)
  from disabled_fallback_and_empty_list [OF a b, of "''Subtitles are disabled for this video''"
         state0 "''spoken words''" None "[]"] c r
  have first: "calls_of (snd (fetch_transcript disabled_world ?url state0))
       = [CallListTranscripts ''xyz789'', CallDownload ?url,
          CallWhisper ''/tmp/youtube_audio.mp3'']"
    by (simp add: g j z)
  from disabled_fallback_and_empty_list [OF a2 b, of "''x''" state0 "''spoken words''" None "[]"] c2
  have second: "fst (fetch_transcript empty_world ?url state0)
       = Inr (None, Some (''Error: '' @ str_exn bare_TranscriptsDisabled))
     \<and> calls_of (snd (fetch_transcript empty_world ?url state0)) = [CallListTranscripts ''xyz789'']"
    by (simp add: z)
  from r first second show ?thesis by simp
qed

text \<open>
  Claim C4. Once the fallback is entered, because the listing call or the fetch of the
  selected track raised \<^verbatim>\<open>TranscriptsDisabled\<close>, a failure is not turned into an error
  text: when \<open>download_audio\<close> returns \<^verbatim>\<open>None\<close> the \<^verbatim>\<open>TypeError\<close> of
  \<^verbatim>\<open>open(None, "rb")\<close> leaves \<open>fetch_transcript\<close>, and so does any exception of
  \<open>transcribe_audio\<close>, in particular one raised by the transcription service on the
  downloaded file.
\<close>

theorem fallback_failures_propagate:
  assumes "extract_video_id (lib W) url = Inr (Some vid)" and "vid \<noteq> []"
    and "list_transcripts W vid = Inl d \<or>
         (\<exists>ts t. list_transcripts W vid = Inr ts \<and> best_transcript ts = Some t \<and> fetch t = Inl d)"
    and "exc_class_of d = TranscriptsDisabled"
  shows "(let s1 = emit (Print ''Captions are disabled. Using Whisper STT.'')
                     (snd (fetch_transcript_try W vid s));
              downloaded = download_audio W url s1
          in (fst downloaded = None \<longrightarrow>
                fst (fetch_transcript W url s) =
                  Inl (Exn TypeError ''expected str, bytes or os.PathLike object, not NoneType''))
           \<and> (fst (transcribe_audio W (fst downloaded) (snd downloaded)) = Inl e \<longrightarrow>
                fst (fetch_transcript W url s) = Inl e)
           \<and> (fst downloaded = Some p \<and>
              whisper_create W ''whisper-1'' (the (files (snd downloaded) p)) ''text'' = Inl e \<longrightarrow>
                fst (fetch_transcript W url s) = Inl e))"
proof -
  define s1 where "s1 = emit (Print ''Captions are disabled. Using Whisper STT.'')
                     (snd (fetch_transcript_try W vid s))"
  define downloaded where "downloaded = download_audio W url s1"
  have eq: "fst (fetch_transcript W url s) =
               (case fst (transcribe_audio W (fst downloaded) (snd downloaded)) of
                  Inl e \<Rightarrow> Inl e
                | Inr transcript_text \<Rightarrow> Inr (Some transcript_text, None))"
    unfolding fetch_transcript_disabled [OF assms]
    by (simp add: fetch_transcript_fallback_def Let_def s1_def downloaded_def
          split: prod.splits sum.splits)
  have none: "fst (fetch_transcript W url s) =
                  Inl (Exn TypeError ''expected str, bytes or os.PathLike object, not NoneType'')"
    if "fst downloaded = None"
    using that by (simp add: eq transcribe_audio_def)
  have tr: "fst (fetch_transcript W url s) = Inl e"
    if "fst (transcribe_audio W (fst downloaded) (snd downloaded)) = Inl e"
    using that by (simp add: eq)
  have wh: "fst (fetch_transcript W url s) = Inl e"
    if p: "fst downloaded = Some p"
      and w: "whisper_create W ''whisper-1'' (the (files (snd downloaded) p)) ''text'' = Inl e"
  proof -
    from p have "files (snd downloaded) p \<noteq> None"
      unfolding downloaded_def by (auto dest: download_audio_Some)
    with p w have "fst (transcribe_audio W (fst downloaded) (snd downloaded)) = Inl e"
      by (auto simp: transcribe_audio_def Let_def)
    then show ?thesis by (rule tr)
  qed
  from none tr wh show ?thesis
    by (simp add: Let_def s1_def downloaded_def)
qed

theorem fallback_failures_propagate_witness:
  "fst (fetch_transcript offline_world ''https://youtu.be/xyz789?t=5'' state0)
     = Inl (Exn TypeError ''expected str, bytes or os.PathLike object, not NoneType'')
   \<and> fst (fetch_transcript
            (disabled_world\<lparr>whisper_create := (\<lambda>m f r. Inl (Exn OtherException ''rate limit''))\<rparr>)
            ''https://youtu.be/xyz789?t=5'' state0)
       = Inl (Exn OtherException ''rate limit'')"
proof -
  let ?url = "''https://youtu.be/xyz789?t=5''"
  let ?W = "disabled_world\<lparr>whisper_create := (\<lambda>m f r. Inl (Exn OtherException ''rate limit''))\<rparr>"
  let ?d = "Exn TranscriptsDisabled ''Subtitles are disabled for this video''"
  have b: "''xyz789'' \<noteq> []" by simp
  have k: "exc_class_of ?d = TranscriptsDisabled" by simp
  have a1: "extract_video_id (lib offline_world) ?url = Inr (Some ''xyz789'')"
    by code_simp
  have c1: "list_transcripts offline_world ''xyz789'' = Inl ?d \<or>
           (\<exists>ts t. list_transcripts offline_world ''xyz789'' = Inr ts \<and> best_transcript ts = Some t
              \<and> fetch t = Inl ?d)"
    by (simp add: offline_world_def disabled_world_def)
  have d1: "fst (download_audio offline_world ?url
             (emit (Print ''Captions are disabled. Using Whisper STT.'')
                (snd (fetch_transcript_try offline_world ''xyz789'' state0)))) = None"
    by (simp add: download_audio_def offline_world_def Let_def)
  have a2: "extract_video_id (lib ?W) ?url = Inr (Some ''xyz789'')"
    by code_simp
  have c2: "list_transcripts ?W ''xyz789'' = Inl ?d \<or>
           (\<exists>ts t. list_transcripts ?W ''xyz789'' = Inr ts \<and> best_transcript ts = Some t
              \<and> fetch t = Inl ?d)"
    by (simp add: disabled_world_def)
  have d2: "fst (download_audio ?W ?url
             (emit (Print ''Captions are disabled. Using Whisper STT.'')
                (snd (fetch_transcript_try ?W ''xyz789'' state0)))) = Some ''/tmp/youtube_audio.mp3''"
    by (simp add: download_audio_def disabled_world_def demo_world_def demo_download_def
          os_path_join_def Let_def)
  from fallback_failures_propagate [OF a1 b c1 k, of state0 "Exn OtherException ''rate limit''" "[]"] d1
  have first: "fst (fetch_transcript offline_world ?url state0)
     = Inl (Exn TypeError ''expected str, bytes or os.PathLike object, not NoneType'')"
    by (simp add: Let_def)
  from fallback_failures_propagate [OF a2 b c2 k, of state0 "Exn OtherException ''rate limit''"
         "''/tmp/youtube_audio.mp3''"] d2
  have second: "fst (fetch_transcript ?W ?url state0) = Inl (Exn OtherException ''rate limit'')"
    by (simp add: Let_def)
  from first second show ?thesis by simp
qed

section \<open>Other failures of the transcript service\<close>

text \<open>
  Claim C3. When the listing call, or the fetch of the selected track, raises an
  exception other than \<^verbatim>\<open>TranscriptsDisabled\<close>, \<open>fetch_transcript\<close> returns no
  transcript and the text \<^verbatim>\<open>Error: \<close> followed by the exception's description; the
  only service calls made are the one listing call and at most the one fetch (no retry,
  no download, no transcription); and \<open>main\<close>, reading this URL, prints that error as its
  last line and returns without calling the summarizer.
\<close>

theorem listing_failure_reported:
  assumes "extract_video_id (lib W) url = Inr (Some vid)" and "vid \<noteq> []"
    and "list_transcripts W vid = Inl e \<or>
         (\<exists>ts t. list_transcripts W vid = Inr ts \<and> best_transcript ts = Some t \<and> fetch t = Inl e)"
    and "exc_class_of e \<noteq> TranscriptsDisabled"
    and "stdin_url W = url"
  shows "fst (fetch_transcript W url s) = Inr (None, Some (''Error: '' @ str_exn e))
         \<and> (calls_of (snd (fetch_transcript W url s)) = calls_of s @ [CallListTranscripts vid] \<or>
            (\<exists>l. calls_of (snd (fetch_transcript W url s)) =
                    calls_of s @ [CallListTranscripts vid, CallFetch l]))
         \<and> fst (main W s) = Inr ()
         \<and> last (trace (snd (main W s))) = Print (''Error: Error: '' @ str_exn e)
         \<and> (calls_of (snd (main W s)) = calls_of s @ [CallListTranscripts vid] \<or>
            (\<exists>l. calls_of (snd (main W s)) = calls_of s @ [CallListTranscripts vid, CallFetch l]))"
proof -
  have ft: "fetch_transcript W url s' =
              (Inr (None, Some (''Error: '' @ str_exn e)), snd (fetch_transcript_try W vid s'))" for s'
    using assms(1,2,4) fetch_transcript_try_failure(1) [OF assms(3), of s']
    by (cases "fetch_transcript_try W vid s'") (simp add: fetch_transcript_def)
  define s3 where "s3 = emit (Print ''Fetching transcript...'')
     (emit (Prompt ''Enter the language for the summary (e.g., English, Vietnamese): '')
        (emit (Prompt ''Enter the YouTube video URL: '') s))"
  have c3: "calls_of s3 = calls_of s"
    by (simp add: s3_def calls_of_def emit_def is_call_def)
  have m: "main W s = (Inr (), emit (Print (''Error: Error: '' @ str_exn e))
                                 (snd (fetch_transcript_try W vid s3)))"
    using assms(5) ft [of s3]
    by (simp add: main_def Let_def s3_def str_opt_def)
  have l: "last (trace (emit ev st)) = ev" for ev st
    by (simp add: emit_def)
  show ?thesis
    using fetch_transcript_try_failure(2) [OF assms(3), of s]
          fetch_transcript_try_failure(2) [OF assms(3), of s3]
    by (simp add: ft m l c3)
qed

theorem listing_failure_reported_witness:
  "fst (fetch_transcript broken_world ''https://www.youtube.com/watch?v=abc123'' state0)
     = Inr (None, Some ''Error: connection reset'')
   \<and> fst (main broken_world state0) = Inr ()
   \<and> last (trace (snd (main broken_world state0))) = Print ''Error: Error: connection reset''"
proof -
  have a: "extract_video_id (lib broken_world) ''https://www.youtube.com/watch?v=abc123''
             = Inr (Some ''abc123'')"
    by code_simp
  have b: "''abc123'' \<noteq> []" by simp
  have c: "list_transcripts broken_world ''abc123'' = Inl (Exn OtherException ''connection reset'') \<or>
           (\<exists>ts t. list_transcripts broken_world ''abc123'' = Inr ts \<and> best_transcript ts = Some t
              \<and> fetch t = Inl (Exn OtherException ''connection reset''))"
    by (simp add: broken_world_def)
  have d: "exc_class_of (Exn OtherException ''connection reset'') \<noteq> TranscriptsDisabled"
    by simp
  have e: "stdin_url broken_world = ''https://www.youtube.com/watch?v=abc123''"
    by (simp add: broken_world_def demo_world_def)
  from listing_failure_reported [OF a b c d e, of state0]
  show ?thesis by simp
qed

section \<open>Printing the summary\<close>

text \<open>
  Claim C9. Once \<open>fetch_transcript\<close> has returned a transcript and no error, \<open>main\<close>
  prints the two progress lines and calls the model. When the model returns a text,
  \<open>main\<close> prints the header line (a newline followed by \<^verbatim>\<open>=== Video Summary ===\<close>)
  and then that text, unchanged. When the model raises, \<open>main\<close> catches the exception and
  prints \<^verbatim>\<open>Error during summarization: \<close> with its description; nothing else is
  printed, so neither the header nor a summary appears.
\<close>

theorem summary_printed_under_header:
  assumes "fetch_transcript W (stdin_url W)
             (emit (Print ''Fetching transcript...'')
               (emit (Prompt ''Enter the language for the summary (e.g., English, Vietnamese): '')
                 (emit (Prompt ''Enter the YouTube video URL: '') s)))
           = (Inr (transcript_text, None), s4)"
  shows "(generate_content W ''gemini-1.5-flash'' (gemini_prompt transcript_text (stdin_language W))
            = Inr summary \<longrightarrow>
          main W s = (Inr (), s4\<lparr>trace := trace s4 @
            [Print ''Transcript successfully fetched.'',
             Print ''Summarizing with Google Gemini...'',
             CallGemini (gemini_prompt transcript_text (stdin_language W)),
             Print (CHR 0x0A # ''=== Video Summary ===''),
             Print summary]\<rparr>))
       \<and> (generate_content W ''gemini-1.5-flash'' (gemini_prompt transcript_text (stdin_language W))
            = Inl e \<longrightarrow>
          main W s = (Inr (), s4\<lparr>trace := trace s4 @
            [Print ''Transcript successfully fetched.'',
             Print ''Summarizing with Google Gemini...'',
             CallGemini (gemini_prompt transcript_text (stdin_language W)),
             Print (''Error during summarization: '' @ str_exn e)]\<rparr>))"
  using assms
  by (simp add: main_def Let_def summarizeyt_with_gemini_def emit_def summary_header_def)

theorem summary_printed_under_header_witness:
  "drop 8 (trace (snd (main demo_world state0))) =
     [Print ''Transcript successfully fetched.'',
      Print ''Summarizing with Google Gemini...'',
      CallGemini (gemini_prompt (Some ''Hello world'') ''English''),
      Print (CHR 0x0A # ''=== Video Summary ===''),
      Print ''A short summary.'']
   \<and> drop 8 (trace (snd (main mute_world state0))) =
     [Print ''Transcript successfully fetched.'',
      Print ''Summarizing with Google Gemini...'',
      CallGemini (gemini_prompt (Some ''Hello world'') ''English''),
      Print ''Error during summarization: quota exceeded'']"
proof -
  let ?s3 = "emit (Print ''Fetching transcript...'')
               (emit (Prompt ''Enter the language for the summary (e.g., English, Vietnamese): '')
                 (emit (Prompt ''Enter the YouTube video URL: '') state0))"
  let ?s4 = "\<lparr>files = Map.empty, trace =
       [Prompt ''Enter the YouTube video URL: '',
        Prompt ''Enter the language for the summary (e.g., English, Vietnamese): '',
        Print ''Fetching transcript...'', CallListTranscripts ''abc123'',
        Print ''DEBUG: Available transcripts for abc123:'',
        Print '' - en (Generated: True)'',
        Print '' - vi (Generated: False)'', CallFetch ''vi'']\<rparr>"
  have x: "extract_video_id demo_lib ''https://www.youtube.com/watch?v=abc123'' = Inr (Some ''abc123'')"
    by code_simp
  have a1: "fetch_transcript demo_world (stdin_url demo_world) ?s3 = (Inr (Some ''Hello world'', None), ?s4)"
    by (simp add: fetch_transcript_def demo_world_def x fetch_transcript_try_def Let_def
          best_transcript_def auto_track_def manual_track_def emit_def state0_def debug_line_def
          str_bool_def)
  have a2: "fetch_transcript mute_world (stdin_url mute_world) ?s3 = (Inr (Some ''Hello world'', None), ?s4)"
    by (simp add: fetch_transcript_def mute_world_def demo_world_def x fetch_transcript_try_def Let_def
          best_transcript_def auto_track_def manual_track_def emit_def state0_def debug_line_def
          str_bool_def)
  have g1: "generate_content demo_world ''gemini-1.5-flash''
              (gemini_prompt (Some ''Hello world'') (stdin_language demo_world)) = Inr ''A short summary.''"
    by (simp add: demo_world_def)
  have g2: "generate_content mute_world ''gemini-1.5-flash''
              (gemini_prompt (Some ''Hello world'') (stdin_language mute_world))
              = Inl (Exn OtherException ''quota exceeded'')"
    by (simp add: mute_world_def)
  have l1: "stdin_language demo_world = ''English''" by (simp add: demo_world_def)
  have l2: "stdin_language mute_world = ''English''" by (simp add: mute_world_def demo_world_def)
  from summary_printed_under_header [OF a1, of "''A short summary.''" "Exn OtherException []"] g1
  have m1: "main demo_world state0 = (Inr (), ?s4\<lparr>trace := trace ?s4 @
            [Print ''Transcript successfully fetched.'',
             Print ''Summarizing with Google Gemini...'',
             CallGemini (gemini_prompt (Some ''Hello world'') ''English''),
             Print (CHR 0x0A # ''=== Video Summary ===''),
             Print ''A short summary.'']\<rparr>)"
    by (simp add: l1)
  from summary_printed_under_header [OF a2, of "''A short summary.''" "Exn OtherException ''quota exceeded''"] g2
  have m2: "main mute_world state0 = (Inr (), ?s4\<lparr>trace := trace ?s4 @
            [Print ''Transcript successfully fetched.'',
             Print ''Summarizing with Google Gemini...'',
             CallGemini (gemini_prompt (Some ''Hello world'') ''English''),
             Print (''Error during summarization: '' @ ''quota exceeded'')]\<rparr>)"
    by (simp add: l2)
  show ?thesis
    by (simp add: m1 m2)
qed

section \<open>The URL parser\<close>

text \<open>
  Claim C6, amended. Take a URL text made of a scheme, \<^verbatim>\<open>://\<close>, a host that in lower
  case is \<^verbatim>\<open>www.youtube.com\<close> or \<^verbatim>\<open>youtube.com\<close>, an optional port, an optional path,
  \<^verbatim>\<open>?\<close>, a query and an optional fragment. Let the query consist of other fields
  (fields with an empty value, or with a name that is not \<^verbatim>\<open>v\<close>), each followed by
  \<^verbatim>\<open>&\<close>, then \<^verbatim>\<open>v=\<close> and a non-empty value without \<^verbatim>\<open>&\<close>, then nothing or further
  fields. Then \<open>extract_video_id\<close> returns that value after plus and percent decoding,
  and the value's text itself when it has neither \<^verbatim>\<open>+\<close> nor \<^verbatim>\<open>%\<close>. So the result is
  the first non-empty value of \<^verbatim>\<open>v\<close>, decoded.
\<close>

theorem canonical_url_first_v_value:
  assumes sch: "sch \<noteq> []" "ascii_isalpha (hd sch)" "list_all (\<lambda>c. c \<in> set scheme_chars) sch"
    and host: "py_lower hraw = ''www.youtube.com'' \<or> py_lower hraw = ''youtube.com''"
    and port: "port = [] \<or> hd port = CHR '':''" "list_all port_char port"
    and pth: "pth = [] \<or> hd pth = CHR ''/''"
             "list_all (\<lambda>c. c \<noteq> CHR ''?'' \<and> c \<noteq> CHR ''#'' \<and> \<not> is_unsafe c) pth"
    and qry: "q = concat (map (\<lambda>f. f @ ''&'') others) @ ''v='' @ X0 @ rest"
             "list_all (\<lambda>c. c \<noteq> CHR ''#'' \<and> \<not> is_unsafe c) q"
    and others: "list_all other_field others"
    and x0: "X0 \<noteq> []" "CHR ''&'' \<notin> set X0"
    and rest: "rest = [] \<or> hd rest = CHR ''&''"
    and frag: "frag = [] \<or> hd frag = CHR ''#''"
  shows "extract_video_id L (sch @ ''://'' @ hraw @ port @ pth @ ''?'' @ q @ frag)
           = Inr (Some (unquote_plus L X0))
         \<and> (CHR ''%'' \<notin> set X0 \<and> CHR ''+'' \<notin> set X0 \<longrightarrow>
              extract_video_id L (sch @ ''://'' @ hraw @ port @ pth @ ''?'' @ q @ frag)
                = Inr (Some X0))"
proof -
  let ?url = "sch @ ''://'' @ hraw @ port @ pth @ ''?'' @ q @ frag"
  from canonical_url_components [OF sch host port pth qry(2) frag, of L]
  obtain r where r: "urlparse L ?url = Inr r" "hostname r = Some (py_lower hraw)" "query r = q"
    by blast
  have h: "hostname r \<in> {Some ''www.youtube.com'', Some ''youtube.com''}"
    using r(2) host by auto
  have "extract_video_id L ?url = first_v (parse_qs L q)"
    unfolding extract_video_id_def r(1) using h r(3) by simp
  also have "\<dots> = Inr (Some (unquote_plus L X0))"
    unfolding qry(1) by (rule parse_qs_first_v [OF others x0 rest])
  finally have main: "extract_video_id L ?url = Inr (Some (unquote_plus L X0))" .
  have "extract_video_id L ?url = Inr (Some X0)"
    if "CHR ''%'' \<notin> set X0 \<and> CHR ''+'' \<notin> set X0"
    using main that by (simp add: unquote_plus_plain)
  with main show ?thesis by blast
qed

theorem canonical_url_first_v_value_witness:
  "extract_video_id demo_lib ''HTTPS://WWW.YouTube.com:443/watch?feature=share&v=&v=abc123&t=10#top''
     = Inr (Some ''abc123'')"
proof -
  have sch: "''HTTPS'' \<noteq> []" "ascii_isalpha (hd ''HTTPS'')"
    "list_all (\<lambda>c. c \<in> set scheme_chars) ''HTTPS''"
    by (simp_all add: ascii_isalpha_def is_upper_def scheme_chars_def)
  have host: "py_lower ''WWW.YouTube.com'' = ''www.youtube.com'' \<or>
              py_lower ''WWW.YouTube.com'' = ''youtube.com''"
    by code_simp
  have port: "'':443'' = [] \<or> hd '':443'' = CHR '':''" "list_all port_char '':443''"
    by (simp_all add: port_char_def)
  have pth: "''/watch'' = [] \<or> hd ''/watch'' = CHR ''/''"
    "list_all (\<lambda>c. c \<noteq> CHR ''?'' \<and> c \<noteq> CHR ''#'' \<and> \<not> is_unsafe c) ''/watch''"
    by (simp_all add: is_unsafe_def UNSAFE_URL_BYTES_TO_REMOVE_def)
  have qry: "''feature=share&v=&v=abc123&t=10''
               = concat (map (\<lambda>f. f @ ''&'') [''feature=share'', ''v='']) @ ''v='' @ ''abc123'' @ ''&t=10''"
    "list_all (\<lambda>c. c \<noteq> CHR ''#'' \<and> \<not> is_unsafe c) ''feature=share&v=&v=abc123&t=10''"
    by (simp_all add: is_unsafe_def UNSAFE_URL_BYTES_TO_REMOVE_def)
  have others: "list_all other_field [''feature=share'', ''v='']"
    by (simp add: other_field_def query_field_name_def query_field_value_def)
  have x0: "''abc123'' \<noteq> []" "CHR ''&'' \<notin> set ''abc123''"
    by simp_all
  have rest: "''&t=10'' = [] \<or> hd ''&t=10'' = CHR ''&''"
    by simp
  have frag: "''#top'' = [] \<or> hd ''#top'' = CHR ''#''"
    by simp
  have plain: "CHR ''%'' \<notin> set ''abc123'' \<and> CHR ''+'' \<notin> set ''abc123''"
    by simp
  from canonical_url_first_v_value [OF sch host port pth qry others x0 rest frag, of demo_lib] plain
  have "extract_video_id demo_lib
          (''HTTPS'' @ ''://'' @ ''WWW.YouTube.com'' @ '':443'' @ ''/watch'' @ ''?''
             @ ''feature=share&v=&v=abc123&t=10'' @ ''#top'') = Inr (Some ''abc123'')"
    by blast
  then show ?thesis by simp
qed

text \<open>
  The claim as worded fails: the query \<^verbatim>\<open>v=&v=abc\<close> of a canonical URL carries the
  parameter \<^verbatim>\<open>v\<close> with the empty text as first value, and the result is \<^verbatim>\<open>abc\<close>; for
  the query \<^verbatim>\<open>v=\<close> the result is \<^verbatim>\<open>None\<close>; and the value text \<^verbatim>\<open>a+b\<close> is returned
  as \<^verbatim>\<open>a b\<close>.
\<close>

theorem first_v_value_counterexample:
  "map_sum id hostname (urlparse demo_lib ''https://www.youtube.com/watch?v=&v=abc'')
     = Inr (Some ''www.youtube.com'')
   \<and> map_sum id query (urlparse demo_lib ''https://www.youtube.com/watch?v=&v=abc'')
     = Inr ''v=&v=abc''
   \<and> py_split CHR ''&'' ''v=&v=abc'' = [''v='', ''v=abc'']
   \<and> py_partition CHR ''='' ''v='' = (''v'', True, [])
   \<and> extract_video_id demo_lib ''https://www.youtube.com/watch?v=&v=abc'' = Inr (Some ''abc'')
   \<and> extract_video_id demo_lib ''https://www.youtube.com/watch?v='' = Inr None
   \<and> extract_video_id demo_lib ''https://www.youtube.com/watch?v=a+b'' = Inr (Some ''a b'')"
  by code_simp

text \<open>
  Claim C7, amended. A short link in the form the pattern accepts is an optional
  \<^verbatim>\<open>http://\<close> or \<^verbatim>\<open>https://\<close>, an optional \<^verbatim>\<open>www.\<close>, then \<^verbatim>\<open>youtu.be/\<close>, all in
  lower case, and a non-empty identifier without \<^verbatim>\<open>?\<close> and \<^verbatim>\<open>&\<close>, which either ends
  the text or is followed by one of these two characters. For every such text
  \<open>extract_video_id\<close> returns the identifier: the URL parser accepts the text, its host
  is not one of the two canonical ones, and the pattern captures the identifier.
\<close>

theorem short_link_identifier:
  assumes "p1 \<in> {[], ''http://'', ''https://''}" and "p2 \<in> {[], ''www.''}"
    and "sid \<noteq> []" and "\<forall>c\<in>set sid. c \<noteq> CHR ''?'' \<and> c \<noteq> CHR ''&''"
    and "rest = [] \<or> hd rest = CHR ''?'' \<or> hd rest = CHR ''&''"
  shows "extract_video_id L (p1 @ p2 @ ''youtu.be/'' @ sid @ rest) = Inr (Some sid)"
proof -
  let ?url = "p1 @ p2 @ ''youtu.be/'' @ sid @ rest"
  obtain r where r: "urlsplit L ?url = Inr r" "netloc r \<in> {[], ''youtu.be'', ''www.youtu.be''}"
    using short_link_netloc [OF assms(1,2), of L "sid @ rest"] by auto
  obtain r' where r': "urlparse L ?url = Inr r'" "netloc r' = netloc r"
    using urlparse_netloc [OF r(1)] by auto
  have "hostname r' \<notin> {Some ''www.youtube.com'', Some ''youtube.com''}"
    using r(2) r'(2) by (intro hostname_short_link) simp
  then have "extract_video_id L ?url = Inr (re_match_short_link ?url)"
    unfolding extract_video_id_def r'(1) by simp
  then show ?thesis
    by (simp only: re_match_short_link_shape [OF assms])
qed

theorem short_link_identifier_witness:
  "extract_video_id demo_lib ''https://youtu.be/xyz789?t=5'' = Inr (Some ''xyz789'')
   \<and> extract_video_id demo_lib ''youtu.be/dQw4w9WgXcQ'' = Inr (Some ''dQw4w9WgXcQ'')"
  using short_link_identifier [of "''https://''" "[]" "''xyz789''" "''?t=5''" demo_lib]
        short_link_identifier [of "[]" "[]" "''dQw4w9WgXcQ''" "[]" demo_lib]
  by simp

text \<open>
  The claim as worded fails: the pattern is matched against the text as typed, so a
  short link whose scheme or host is not in lower case yields \<^verbatim>\<open>None\<close>, although the
  URL parser finds the host \<^verbatim>\<open>youtu.be\<close> and the path \<^verbatim>\<open>/abc123\<close> in it.
\<close>

theorem short_link_case_counterexample:
  "map_sum id hostname (urlparse demo_lib ''https://YOUTU.BE/abc123'') = Inr (Some ''youtu.be'')
   \<and> map_sum id path (urlparse demo_lib ''https://YOUTU.BE/abc123'') = Inr ''/abc123''
   \<and> extract_video_id demo_lib ''https://YOUTU.BE/abc123'' = Inr None
   \<and> extract_video_id demo_lib ''HTTPS://youtu.be/abc123'' = Inr None
   \<and> extract_video_id demo_lib ''Https://youtu.be/abc123'' = Inr None"
  by code_simp

text \<open>
  Claim C5 says that every text of neither shape yields \<^verbatim>\<open>None\<close> from the parser and
  the invalid-URL error from \<open>fetch_transcript\<close>. The text \<^verbatim>\<open>http://[\<close> is of neither
  shape, yet \<^verbatim>\<open>urlparse\<close> raises \<^verbatim>\<open>ValueError\<close> on it before the host is looked
  at: \<open>extract_video_id\<close> raises instead of returning, and the exception leaves
  \<open>fetch_transcript\<close>, whose call of \<open>extract_video_id\<close> stands outside the
  \<^verbatim>\<open>try\<close> block. No service is called and nothing is printed; lemma
  \<open>invalid_url_no_calls\<close> covers the texts on which the parser does return \<^verbatim>\<open>None\<close>.
\<close>

theorem bracket_url_raises:
  "extract_video_id L ''http://['' = Inl (Exn ValueError ''Invalid IPv6 URL'')
   \<and> fetch_transcript W ''http://['' s = (Inl (Exn ValueError ''Invalid IPv6 URL''), s)"
proof -
  have c: "url_cleaned ''http://['' = ''http://[''"
    by (simp add: url_cleaned_def WHATWG_C0_CONTROL_OR_SPACE_def UNSAFE_URL_BYTES_TO_REMOVE_def)
  have s: "split_scheme ''http://['' = (''http'', ''//['')"
    using split_scheme_http [of "''[''"] by simp
  have "urlsplit L' ''http://['' = Inl (Exn ValueError ''Invalid IPv6 URL'')" for L'
    by (simp add: urlsplit_def c s splitnetloc_def Let_def)
  then have "extract_video_id L' ''http://['' = Inl (Exn ValueError ''Invalid IPv6 URL'')" for L'
    by (simp add: extract_video_id_def urlparse_def)
  then show ?thesis
    by (simp add: fetch_transcript_def)
qed

end
